theory Spec2Isabelle
  imports Complex_Main "HOL-Library.Signed_Division"
begin

text \<open>
  A model of the time accounting of the study tracker: the stopwatch hook
  (\<open>src/hooks/stopwatch.js\<close>) and, from \<open>src/App.js\<close>, the normalizer that runs when stored
  sessions are loaded, the editor's \<open>saveEdit\<close>, the range and tag filter, the per-day
  buckets of the heatmap with their colour tiers, and the statistics. An earlier revision
  of \<open>App.js\<close> that the repository keeps has its own normalizer, modelled beside the
  current one. React state is passed explicitly; \<open>Date.now()\<close>, \<open>Math.random()\<close> and the
  local time zone are parameters.
\<close>

section \<open>JavaScript values held by session records\<close>

text \<open>
  The time fields of a record (\<open>startAt\<close>, \<open>endAt\<close>, \<open>durationMs\<close>) hold a JavaScript
  number or nothing. Numbers are millisecond counts, hence integers; \<open>NaN\<close> is kept as a
  value of its own because the code tests for it. \<open>Undefined\<close> also stands for a field that
  the record does not have.
\<close>

datatype jsnum = Undefined | Null | NaN | Num int

text \<open>Truthiness, as tested by \<open>!x\<close>, \<open>x ? a : b\<close> and \<open>x || y\<close>.\<close>

fun truthy :: "jsnum \<Rightarrow> bool" where
  "truthy (Num n) = (n \<noteq> 0)"
| "truthy _ = False"

text \<open>\<open>ToNumber\<close>; \<open>None\<close> is NaN.\<close>

fun toNumber :: "jsnum \<Rightarrow> int option" where
  "toNumber Undefined = None"
| "toNumber Null = Some 0"
| "toNumber NaN = None"
| "toNumber (Num n) = Some n"

fun ofNumber :: "int option \<Rightarrow> jsnum" where
  "ofNumber None = NaN"
| "ofNumber (Some n) = Num n"

text \<open>\<open>a || b\<close> and \<open>a ?? b\<close>.\<close>

definition js_or :: "jsnum \<Rightarrow> jsnum \<Rightarrow> jsnum" where
  "js_or a b = (if truthy a then a else b)"

fun nullish :: "jsnum \<Rightarrow> bool" where
  "nullish Undefined = True"
| "nullish Null = True"
| "nullish _ = False"

definition js_coalesce :: "jsnum \<Rightarrow> jsnum \<Rightarrow> jsnum" where
  "js_coalesce a b = (if nullish a then b else a)"

text \<open>\<open>a - b\<close> and \<open>a + b\<close> on these values: both operands go through \<open>ToNumber\<close>.\<close>

definition js_sub :: "jsnum \<Rightarrow> jsnum \<Rightarrow> jsnum" where
  "js_sub a b =
     (case toNumber a of None \<Rightarrow> NaN
      | Some x \<Rightarrow> (case toNumber b of None \<Rightarrow> NaN | Some y \<Rightarrow> Num (x - y)))"

definition js_add :: "jsnum \<Rightarrow> jsnum \<Rightarrow> jsnum" where
  "js_add a b =
     (case toNumber a of None \<Rightarrow> NaN
      | Some x \<Rightarrow> (case toNumber b of None \<Rightarrow> NaN | Some y \<Rightarrow> Num (x + y)))"

text \<open>\<open>a >= b\<close>: false as soon as one side is NaN.\<close>

definition js_ge :: "jsnum \<Rightarrow> jsnum \<Rightarrow> bool" where
  "js_ge a b =
     (case toNumber a of None \<Rightarrow> False
      | Some x \<Rightarrow> (case toNumber b of None \<Rightarrow> False | Some y \<Rightarrow> y \<le> x))"

text \<open>\<open>a === b\<close>: no coercion, and NaN equals nothing.\<close>

fun strict_eq :: "jsnum \<Rightarrow> jsnum \<Rightarrow> bool" where
  "strict_eq (Num a) (Num b) = (a = b)"
| "strict_eq Undefined Undefined = True"
| "strict_eq Null Null = True"
| "strict_eq _ _ = False"

text \<open>\<open>Math.max(0, x)\<close>.\<close>

definition js_max0 :: "jsnum \<Rightarrow> jsnum" where
  "js_max0 a = (case toNumber a of None \<Rightarrow> NaN | Some x \<Rightarrow> Num (max 0 x))"

text \<open>
  A record identifier is a string (\<open>Math.random().toString(36).slice(2)\<close>), a number (the
  store's auto-incremented key), or missing.
\<close>

datatype jsid = NoId | StrId string | NumId int

fun truthy_id :: "jsid \<Rightarrow> bool" where
  "truthy_id NoId = False"
| "truthy_id (StrId s) = (s \<noteq> [])"
| "truthy_id (NumId n) = (n \<noteq> 0)"

text \<open>The legacy \<open>date\<close> field: missing, an epoch number, or a date string.\<close>

datatype jsdate = NoDate | DateNum int | DateStr string

fun truthy_date :: "jsdate \<Rightarrow> bool" where
  "truthy_date NoDate = False"
| "truthy_date (DateNum n) = (n \<noteq> 0)"
| "truthy_date (DateStr s) = (s \<noteq> [])"

text \<open>A string field that may be missing; the empty string is falsy.\<close>

fun truthy_str :: "string option \<Rightarrow> bool" where
  "truthy_str None = False"
| "truthy_str (Some s) = (s \<noteq> [])"

section \<open>Sessions\<close>

text \<open>
  One record type serves for raw stored records and for sessions in memory: the code
  builds a session as \<open>{...s, field: value, ...}\<close>, keeping every field of the raw record.
  \<open>tags\<close> is \<open>None\<close> when the record has no array there.
\<close>

record session =
  id' :: jsid
  startAt :: jsnum
  endAt :: jsnum
  durationMs :: jsnum
  date :: jsdate
  topic :: "string option"
  notes' :: "string option"
  tags :: "string list option"

section \<open>The load-time normalizer\<close>

text \<open>
  What the normalizer reads from outside while it processes one record: the string drawn
  for a new id, the readings of \<open>Date.now()\<close> (one where \<open>endAt\<close> is resolved, one where
  \<open>startAt\<close> is, and in the earlier revision one where the duration is), and the host's parsers for a date string
  (\<open>new Date(str).getTime()\<close>) and for a numeric string (\<open>Number(str)\<close>), NaN being \<open>None\<close>.
\<close>

record env =
  rand_id :: string
  now_end :: int
  now_start :: int
  now_dur :: int
  parseDate :: "string \<Rightarrow> int option"
  parseNumber :: "string \<Rightarrow> int option"

text \<open>\<open>new Date(s.date).getTime()\<close>.\<close>

fun dateGetTime :: "env \<Rightarrow> jsdate \<Rightarrow> jsnum" where
  "dateGetTime e NoDate = NaN"
| "dateGetTime e (DateNum n) = Num n"
| "dateGetTime e (DateStr s) = ofNumber (parseDate e s)"

text \<open>
  The body of \<open>stored.map((s) => ({...s, id: ..., endAt: ..., ...}))\<close> in \<open>App.js\<close>. Every
  right-hand side reads the raw record \<open>s\<close>, not the fields computed before it.
\<close>

definition normalized :: "env \<Rightarrow> session \<Rightarrow> session" where
  "normalized e s = s
     \<lparr> id' := (if truthy_id (id' s) then id' s else StrId (rand_id e)),
       startAt := js_coalesce (startAt s)
          (if truthy (endAt s) then js_sub (endAt s) (js_or (durationMs s) (Num 0))
           else Num (now_start e)),
       endAt := js_or (endAt s)
          (if truthy_date (date s) then dateGetTime e (date s) else Num (now_end e)),
       durationMs := js_or (durationMs s) (Num 0),
       topic := (if truthy_str (topic s) then topic s else Some ''(no topic)''),
       notes' := (if truthy_str (notes' s) then notes' s else Some ''''),
       tags := (case tags s of Some ts \<Rightarrow> Some ts | None \<Rightarrow> Some []) \<rparr>"

text \<open>
  \<open>normalized.sort((a, b) => (b.endAt || 0) - (a.endAt || 0))\<close>: a stable sort, most
  recent end first. The key \<open>endAt || 0\<close> is always a number.
\<close>

definition sortKey :: "session \<Rightarrow> int" where
  "sortKey s = (case js_or (endAt s) (Num 0) of Num n \<Rightarrow> n | _ \<Rightarrow> 0)"

definition sortByEndDesc :: "session list \<Rightarrow> session list" where
  "sortByEndDesc xs = sort_key (\<lambda>s. - sortKey s) xs"

text \<open>
  The whole load step: the \<open>i\<close>-th record is processed in the environment \<open>envAt i\<close>.
\<close>

definition loadNormalized :: "(nat \<Rightarrow> env) \<Rightarrow> session list \<Rightarrow> session list" where
  "loadNormalized envAt stored =
     sortByEndDesc (map (\<lambda>(i, s). normalized (envAt i) s) (enumerate 0 stored))"

text \<open>The invariant \<open>durationMs === endAt - startAt\<close>.\<close>

definition durationInvariant :: "session \<Rightarrow> bool" where
  "durationInvariant s = strict_eq (durationMs s) (js_sub (endAt s) (startAt s))"

text \<open>
  The earlier revision of the normalizer, kept in the repository: it copies the record and
  then assigns field after field, so that later steps read the fields resolved before.
  \<open>Number(session.date)\<close> is tried before \<open>new Date(session.date)\<close>.
\<close>

fun numberOfDate :: "env \<Rightarrow> jsdate \<Rightarrow> int option" where
  "numberOfDate e NoDate = None"
| "numberOfDate e (DateNum n) = Some n"
| "numberOfDate e (DateStr s) = parseNumber e s"

definition normalized_legacy :: "env \<Rightarrow> session \<Rightarrow> session" where
  "normalized_legacy e s =
     (let endAt1 =
            (if \<not> truthy (endAt s) \<and> truthy_date (date s)
             then (case numberOfDate e (date s) of
                     Some maybeMs \<Rightarrow> Num maybeMs
                   | None \<Rightarrow> dateGetTime e (date s))
             else endAt s);
          startAt1 =
            (if \<not> truthy (startAt s)
             then (if truthy (durationMs s)
                   then js_sub (js_or endAt1 (Num (now_start e))) (durationMs s)
                   else js_or endAt1 (Num (now_start e)))
             else startAt s);
          durationMs1 =
            js_or (ofNumber (toNumber (durationMs s)))
                  (js_max0 (js_sub (js_or endAt1 (Num (now_dur e))) startAt1))
      in s \<lparr> endAt := endAt1, startAt := startAt1, durationMs := durationMs1,
             topic := (if truthy_str (topic s) then topic s else Some ''(no topic)''),
             notes' := (if truthy_str (notes' s) then notes' s else Some '''') \<rparr>)"

section \<open>The stopwatch\<close>

text \<open>
  The hook's state. \<open>sw_startAt\<close> is \<open>None\<close> for \<open>null\<close>; in \<open>Date.now() - startAt\<close> a
  \<open>null\<close> counts as 0.
\<close>

record stopwatch =
  isRunning :: bool
  sw_startAt :: "int option"
  elapsedOffset :: int

definition numOrNull :: "int option \<Rightarrow> int" where
  "numOrNull v = (case v of None \<Rightarrow> 0 | Some n \<Rightarrow> n)"

definition currentElapsed :: "int \<Rightarrow> stopwatch \<Rightarrow> int" where
  "currentElapsed now st =
     (if isRunning st then now - numOrNull (sw_startAt st) + elapsedOffset st
      else elapsedOffset st)"

definition start :: "int \<Rightarrow> stopwatch \<Rightarrow> stopwatch" where
  "start now st =
     (if isRunning st then st else st \<lparr> sw_startAt := Some now, isRunning := True \<rparr>)"

definition pause :: "int \<Rightarrow> stopwatch \<Rightarrow> stopwatch" where
  "pause now st =
     (if \<not> isRunning st then st
      else st \<lparr> elapsedOffset := elapsedOffset st + (now - numOrNull (sw_startAt st)),
                sw_startAt := None, isRunning := False \<rparr>)"

definition resume :: "int \<Rightarrow> stopwatch \<Rightarrow> stopwatch" where
  "resume now st =
     (if isRunning st then st else st \<lparr> sw_startAt := Some now, isRunning := True \<rparr>)"

text \<open>What \<open>stop()\<close> returns when it returns an object.\<close>

record stop_result =
  res_durationMs :: int
  res_startAt :: int
  res_endAt :: int

text \<open>\<open>stop()\<close>: the state after the three setters, and the value returned (\<open>None\<close> is \<open>null\<close>).\<close>

definition stop :: "int \<Rightarrow> stopwatch \<Rightarrow> stopwatch \<times> stop_result option" where
  "stop endTime st =
     (let duration = (if isRunning st
                      then endTime - numOrNull (sw_startAt st) + elapsedOffset st
                      else elapsedOffset st)
      in (st \<lparr> isRunning := False, sw_startAt := None, elapsedOffset := 0 \<rparr>,
          if duration \<le> 0 then None
          else Some \<lparr> res_durationMs = duration,
                      res_startAt = endTime - duration,
                      res_endAt = endTime \<rparr>))"

definition idle :: stopwatch where
  "idle = \<lparr> isRunning = False, sw_startAt = None, elapsedOffset = 0 \<rparr>"

section \<open>Colour tiers\<close>

definition DEFAULT_THRESHOLDS :: "real list" where
  "DEFAULT_THRESHOLDS = [1, 1800, 3600, 7200, 10800, 14400, 18000, 21600, 25200]"

text \<open>
  \<open>colorForCount(seconds)\<close> on a number. On a real, \<open>!seconds\<close> is \<open>seconds = 0\<close>.
\<close>

definition colorForCount :: "real \<Rightarrow> string" where
  "colorForCount seconds =
     (let t = DEFAULT_THRESHOLDS in
      if seconds = 0 \<or> seconds \<le> 0 then ''bg-gray-700''
      else if seconds \<ge> t ! 8 then ''bg-green-200''
      else if seconds \<ge> t ! 7 then ''bg-green-300''
      else if seconds \<ge> t ! 6 then ''bg-green-400''
      else if seconds \<ge> t ! 5 then ''bg-green-500''
      else if seconds \<ge> t ! 4 then ''bg-green-600''
      else if seconds \<ge> t ! 3 then ''bg-green-700''
      else if seconds \<ge> t ! 2 then ''bg-green-800''
      else if seconds \<ge> t ! 1 then ''bg-green-900''
      else if seconds \<ge> t ! 0 then ''bg-green-950''
      else ''bg-gray-700'')"

text \<open>
  The ten tiers from no activity to most activity, and the place of a class name among
  them.
\<close>

definition TIERS :: "string list" where
  "TIERS = [''bg-gray-700'', ''bg-green-950'', ''bg-green-900'', ''bg-green-800'',
            ''bg-green-700'', ''bg-green-600'', ''bg-green-500'', ''bg-green-400'',
            ''bg-green-300'', ''bg-green-200'']"

definition tierRank :: "string \<Rightarrow> nat" where
  "tierRank c = length (takeWhile (\<lambda>x. x \<noteq> c) TIERS)"

section \<open>Editing a session\<close>

text \<open>
  The edit draft is a copy of the session with one more field, the text of the tags input.
\<close>

record draft = session +
  tagsInput :: "string option"

text \<open>
  The part of the application state that editing touches. \<open>editingId\<close> and \<open>editDraft\<close> are
  \<open>None\<close> for \<open>null\<close>.
\<close>

record app =
  sessions :: "session list"
  editingId :: "jsid option"
  editDraft :: "draft option"

text \<open>\<open>(session.tags || []).join(", ")\<close>\<close>

fun join :: "string \<Rightarrow> string list \<Rightarrow> string" where
  "join sep [] = []"
| "join sep [x] = x"
| "join sep (x # y # ys) = x @ sep @ join sep (y # ys)"

definition openEditor :: "session \<Rightarrow> app \<Rightarrow> app" where
  "openEditor s st = st
     \<lparr> editingId := Some (id' s),
       editDraft := Some (session.extend s
          \<lparr> tagsInput = Some (join '', '' (case tags s of None \<Rightarrow> [] | Some ts \<Rightarrow> ts)) \<rparr>) \<rparr>"

text \<open>
  \<open>str.split(",")\<close>, \<open>t.trim()\<close> and \<open>.filter(Boolean)\<close>. Characters are bytes here, so the
  white space that \<open>trim\<close> removes is tab, line feed, vertical tab, form feed, carriage
  return, space and no-break space.
\<close>

fun split_comma :: "string \<Rightarrow> string list" where
  "split_comma [] = [[]]"
| "split_comma (c # cs) =
     (if c = CHR '','' then [] # split_comma cs
      else (case split_comma cs of w # ws \<Rightarrow> (c # w) # ws | [] \<Rightarrow> [[c]]))"

definition isSpace :: "char \<Rightarrow> bool" where
  "isSpace c = ((of_char c :: nat) \<in> {9, 10, 11, 12, 13, 32, 160})"

definition trim :: "string \<Rightarrow> string" where
  "trim s = rev (dropWhile isSpace (rev (dropWhile isSpace s)))"

definition parseTags :: "string option \<Rightarrow> string list" where
  "parseTags inp =
     filter (\<lambda>t. t \<noteq> [])
       (map trim (split_comma (if truthy_str inp then the inp else '''')))"

text \<open>
  \<open>saveEdit\<close> at the time \<open>now\<close>: the message passed to \<open>alert\<close>, if any, and the state
  afterwards. \<open>updated\<close> is the draft with \<open>durationMs\<close> and \<open>tags\<close> replaced and \<open>tagsInput\<close>
  deleted; a draft carries every field of a session, so \<open>{...s, ...updated}\<close> is \<open>updated\<close>.
\<close>

definition saveEdit :: "int \<Rightarrow> app \<Rightarrow> string option \<times> app" where
  "saveEdit now st =
     (case editDraft st of
        None \<Rightarrow> (None, st)
      | Some dr \<Rightarrow>
         (case toNumber (startAt dr) of
            None \<Rightarrow> (Some ''Please enter valid dates'', st)
          | Some sa \<Rightarrow>
             (case toNumber (endAt dr) of
                None \<Rightarrow> (Some ''Please enter valid dates'', st)
              | Some ea \<Rightarrow>
                  if ea \<le> sa then (Some ''End time must be after start time'', st)
                  else if ea > now then (Some ''End time cannot be in the future'', st)
                  else
                    (let updated = session.truncate
                           (dr \<lparr> durationMs := Num (ea - sa),
                                 tags := Some (parseTags (tagsInput dr)) \<rparr>)
                     in (None,
                         st \<lparr> sessions :=
                                map (\<lambda>s. if Some (id' s) = editingId st then updated else s)
                                    (sessions st),
                              editingId := None,
                              editDraft := None \<rparr>)))))"

section \<open>Dates\<close>

text \<open>
  A \<open>Date\<close> object is its time value, an integer count of milliseconds since the epoch.
  The functions below are those of the language definition (Day, TimeWithinDay,
  DayFromYear, YearFromTime, MonthFromTime, DateFromTime, MakeTime, MakeDay, MakeDate,
  LocalTime, UTC) for the proleptic Gregorian calendar. Time values stay inside the range
  a \<open>Date\<close> can hold (\<open>TimeClip\<close> is the identity there), and arithmetic on them is
  exact.
\<close>

definition MS_PER_DAY :: int where "MS_PER_DAY = 86400000"
definition SEC_PER_HOUR :: int where "SEC_PER_HOUR = 3600"
definition MIN_PER_HOUR :: int where "MIN_PER_HOUR = 60"

definition Day :: "int \<Rightarrow> int" where
  "Day t = t div MS_PER_DAY"

definition TimeWithinDay :: "int \<Rightarrow> int" where
  "TimeWithinDay t = t mod MS_PER_DAY"

definition DaysInYear :: "int \<Rightarrow> int" where
  "DaysInYear y =
     (if y mod 4 \<noteq> 0 then 365
      else if y mod 100 \<noteq> 0 then 366
      else if y mod 400 \<noteq> 0 then 365
      else 366)"

definition DayFromYear :: "int \<Rightarrow> int" where
  "DayFromYear y =
     365 * (y - 1970) + (y - 1969) div 4 - (y - 1901) div 100 + (y - 1601) div 400"

text \<open>
  The year of a day number is the largest \<open>y\<close> with \<open>DayFromYear y \<le> d\<close>. It is computed
  from the mean length of a year, which is off by at most one.
\<close>

definition YearFromDay :: "int \<Rightarrow> int" where
  "YearFromDay d =
     (let y = 1970 + (400 * d) div 146097
      in if d < DayFromYear y then y - 1
         else if DayFromYear (y + 1) \<le> d then y + 1
         else y)"

definition YearFromTime :: "int \<Rightarrow> int" where
  "YearFromTime t = YearFromDay (Day t)"

definition InLeapYear :: "int \<Rightarrow> int" where
  "InLeapYear t = (if DaysInYear (YearFromTime t) = 366 then 1 else 0)"

definition DayWithinYear :: "int \<Rightarrow> int" where
  "DayWithinYear t = Day t - DayFromYear (YearFromTime t)"

text \<open>The day within the year on which month \<open>m\<close> (0 to 11) starts.\<close>

definition monthStart :: "int \<Rightarrow> int \<Rightarrow> int" where
  "monthStart leap m =
     (if m = 0 then 0
      else if m = 1 then 31
      else if m = 2 then 59 + leap
      else if m = 3 then 90 + leap
      else if m = 4 then 120 + leap
      else if m = 5 then 151 + leap
      else if m = 6 then 181 + leap
      else if m = 7 then 212 + leap
      else if m = 8 then 243 + leap
      else if m = 9 then 273 + leap
      else if m = 10 then 304 + leap
      else 334 + leap)"

definition MonthFromTime :: "int \<Rightarrow> int" where
  "MonthFromTime t =
     (let d = DayWithinYear t; leap = InLeapYear t
      in if d < 31 then 0
         else if d < 59 + leap then 1
         else if d < 90 + leap then 2
         else if d < 120 + leap then 3
         else if d < 151 + leap then 4
         else if d < 181 + leap then 5
         else if d < 212 + leap then 6
         else if d < 243 + leap then 7
         else if d < 273 + leap then 8
         else if d < 304 + leap then 9
         else if d < 334 + leap then 10
         else 11)"

definition DateFromTime :: "int \<Rightarrow> int" where
  "DateFromTime t = DayWithinYear t - monthStart (InLeapYear t) (MonthFromTime t) + 1"

definition MakeTime :: "int \<Rightarrow> int \<Rightarrow> int \<Rightarrow> int \<Rightarrow> int" where
  "MakeTime hour minute sec ms = hour * 3600000 + minute * 60000 + sec * 1000 + ms"

text \<open>
  \<open>MakeDay\<close>: the month may lie outside 0 to 11 and the date outside the month; both
  carry over.
\<close>

definition MakeDay :: "int \<Rightarrow> int \<Rightarrow> int \<Rightarrow> int" where
  "MakeDay year month dt =
     (let ym = year + month div 12; mn = month mod 12
      in DayFromYear ym + monthStart (if DaysInYear ym = 366 then 1 else 0) mn + dt - 1)"

definition MakeDate :: "int \<Rightarrow> int \<Rightarrow> int" where
  "MakeDate day time = day * MS_PER_DAY + time"

text \<open>
  The local time zone, as the language definition has it (\<open>LocalTZA\<close>): the offset from
  UTC in milliseconds that is in force at an instant, and the offset by which a local
  time value is resolved to an instant. The two differ around a change of offset: a local
  time that the clocks skip or show twice is resolved with the offset before the change.
\<close>

record zone =
  utcOffset :: "int \<Rightarrow> int"
  localOffset :: "int \<Rightarrow> int"

definition LocalTime :: "zone \<Rightarrow> int \<Rightarrow> int" where
  "LocalTime tz t = t + utcOffset tz t"

definition UTC :: "zone \<Rightarrow> int \<Rightarrow> int" where
  "UTC tz t = t - localOffset tz t"

subsection \<open>The methods of \<open>Date\<close> that the code calls\<close>

text \<open>Each setter returns the new time value of the object.\<close>

definition setHours :: "zone \<Rightarrow> int \<Rightarrow> int \<Rightarrow> int \<Rightarrow> int \<Rightarrow> int \<Rightarrow> int" where
  "setHours tz t hour minute sec ms =
     UTC tz (MakeDate (Day (LocalTime tz t)) (MakeTime hour minute sec ms))"

definition getDate :: "zone \<Rightarrow> int \<Rightarrow> int" where
  "getDate tz t = DateFromTime (LocalTime tz t)"

definition getMonth :: "zone \<Rightarrow> int \<Rightarrow> int" where
  "getMonth tz t = MonthFromTime (LocalTime tz t)"

definition getFullYear :: "zone \<Rightarrow> int \<Rightarrow> int" where
  "getFullYear tz t = YearFromTime (LocalTime tz t)"

definition setDate :: "zone \<Rightarrow> int \<Rightarrow> int \<Rightarrow> int" where
  "setDate tz t dt =
     (let lt = LocalTime tz t
      in UTC tz (MakeDate (MakeDay (YearFromTime lt) (MonthFromTime lt) dt)
                          (TimeWithinDay lt)))"

definition setMonth :: "zone \<Rightarrow> int \<Rightarrow> int \<Rightarrow> int" where
  "setMonth tz t month =
     (let lt = LocalTime tz t
      in UTC tz (MakeDate (MakeDay (YearFromTime lt) month (DateFromTime lt))
                          (TimeWithinDay lt)))"

definition setFullYear :: "zone \<Rightarrow> int \<Rightarrow> int \<Rightarrow> int" where
  "setFullYear tz t year =
     (let lt = LocalTime tz t
      in UTC tz (MakeDate (MakeDay year (MonthFromTime lt) (DateFromTime lt))
                          (TimeWithinDay lt)))"

text \<open>Decimal digits of a natural number, and \<open>padStart(w, "0")\<close>.\<close>

fun decimal :: "nat \<Rightarrow> string" where
  "decimal n =
     (if n < 10 then [''0123456789'' ! n]
      else decimal (n div 10) @ [''0123456789'' ! (n mod 10)])"

declare decimal.simps [simp del]

definition padStart0 :: "nat \<Rightarrow> string \<Rightarrow> string" where
  "padStart0 w s = replicate (w - length s) CHR ''0'' @ s"

definition pad :: "nat \<Rightarrow> int \<Rightarrow> string" where
  "pad w n = padStart0 w (decimal (nat n))"

text \<open>
  \<open>toISOString()\<close>, in UTC: \<open>YYYY-MM-DDTHH:mm:ss.sssZ\<close>, the year with a sign and six
  digits when it is not between 0 and 9999.
\<close>

definition isoYear :: "int \<Rightarrow> string" where
  "isoYear y =
     (if 0 \<le> y \<and> y \<le> 9999 then pad 4 y
      else (if y < 0 then ''-'' else ''+'') @ pad 6 \<bar>y\<bar>)"

definition toISOString :: "int \<Rightarrow> string" where
  "toISOString t =
     isoYear (YearFromTime t) @ ''-'' @ pad 2 (MonthFromTime t + 1) @ ''-''
       @ pad 2 (DateFromTime t) @ ''T''
       @ pad 2 (TimeWithinDay t div 3600000) @ '':''
       @ pad 2 (TimeWithinDay t div 60000 mod 60) @ '':''
       @ pad 2 (TimeWithinDay t div 1000 mod 60) @ ''.''
       @ pad 3 (TimeWithinDay t mod 1000) @ ''Z''"

text \<open>
  \<open>startOfDayISO\<close>: \<open>d.setHours(0, 0, 0, 0)\<close> moves the date to local midnight,
  \<open>d.toISOString().slice(0, 10)\<close> prints the UTC date of that instant.
\<close>

definition startOfDayISO :: "zone \<Rightarrow> int \<Rightarrow> string" where
  "startOfDayISO tz tsOrDate = take 10 (toISOString (setHours tz tsOrDate 0 0 0 0))"

text \<open>
  The identifier of the local calendar day that contains an instant: year, month and day
  of the local time, in the same notation.
\<close>

definition localDayISO :: "zone \<Rightarrow> int \<Rightarrow> string" where
  "localDayISO tz t = take 10 (toISOString (LocalTime tz t))"

text \<open>\<open>getDateCutoff(range)\<close> when \<open>new Date()\<close> reads the time \<open>now\<close>.\<close>

definition getDateCutoff :: "zone \<Rightarrow> int \<Rightarrow> string \<Rightarrow> int" where
  "getDateCutoff tz now filterRange =
     (if filterRange = ''week'' then setDate tz now (getDate tz now - 7)
      else if filterRange = ''2weeks'' then setDate tz now (getDate tz now - 14)
      else if filterRange = ''month'' then setMonth tz now (getMonth tz now - 1)
      else if filterRange = ''3months'' then setMonth tz now (getMonth tz now - 3)
      else if filterRange = ''6months'' then setMonth tz now (getMonth tz now - 6)
      else setFullYear tz now (getFullYear tz now - 1))"

section \<open>Filtering and aggregation\<close>

text \<open>
  \<open>filteredSessions\<close>: first the date filter \<open>(s.endAt || s.startAt) >= cutoff.getTime()\<close>,
  then, when tags are selected, \<open>(s.tags || []).some(tag => selectedTags.includes(tag))\<close>.
\<close>

definition tagsOrEmpty :: "session \<Rightarrow> string list" where
  "tagsOrEmpty s = (case tags s of None \<Rightarrow> [] | Some ts \<Rightarrow> ts)"

definition filteredSessions ::
    "zone \<Rightarrow> int \<Rightarrow> string \<Rightarrow> string list \<Rightarrow> session list \<Rightarrow> session list" where
  "filteredSessions tz now filterRange selectedTags sess =
     (let cutoff = getDateCutoff tz now filterRange;
          dateFiltered = filter (\<lambda>s. js_ge (js_or (endAt s) (startAt s)) (Num cutoff)) sess
      in if length selectedTags = 0 then dateFiltered
         else filter (\<lambda>s. list_ex (\<lambda>tag. tag \<in> set selectedTags) (tagsOrEmpty s))
                dateFiltered)"

text \<open>
  The object \<open>counts\<close>: its keys in the order of insertion, each with its number of
  seconds. \<open>counts[key] = (counts[key] || 0) + seconds\<close> adds to an existing key in place and
  appends a new one.
\<close>

type_synonym counts = "(string \<times> int) list"

fun bump :: "string \<Rightarrow> int \<Rightarrow> counts \<Rightarrow> counts" where
  "bump key seconds [] = [(key, 0 + seconds)]"
| "bump key seconds ((k, c) # rest) =
     (if k = key then (k, c + seconds) # rest else (k, c) # bump key seconds rest)"

text \<open>\<open>new Date(x).getTime()\<close> on a value that is a number, \<open>null\<close> or missing.\<close>

definition newDateGetTime :: "jsnum \<Rightarrow> jsnum" where
  "newDateGetTime x = ofNumber (toNumber x)"

text \<open>
  The \<open>while (cursor < eMs)\<close> loop of \<open>countsByDay\<close>. Nothing in the loop itself makes the
  cursor advance: that depends on the zone, so the loop is a partial function, and \<open>None\<close>
  stands for a loop that never ends. \<open>Math.round(x)\<close> is \<open>round x\<close>: both round a half
  upwards.
\<close>

partial_function (option) dayLoop :: "zone \<Rightarrow> int \<Rightarrow> int \<Rightarrow> counts \<Rightarrow> counts option" where
  "dayLoop tz eMs cursor cnts =
     (if cursor < eMs then
        (let d = setHours tz cursor 24 0 0 0;
             segEnd = min eMs d;
             seconds = round (real_of_int (segEnd - cursor) / 1000);
             key = startOfDayISO tz cursor
         in dayLoop tz eMs segEnd (bump key seconds cnts))
      else Some cnts)"

declare dayLoop.simps [code]

text \<open>The body of \<open>filteredSessions.forEach((sess) => {...})\<close>.\<close>

definition addSession :: "zone \<Rightarrow> counts \<Rightarrow> session \<Rightarrow> counts option" where
  "addSession tz cnts sess =
     (let start = js_or (startAt sess)
                    (if truthy (endAt sess) then js_sub (endAt sess) (durationMs sess)
                     else Null);
          end' = js_or (endAt sess)
                  (if truthy (startAt sess) then js_add (startAt sess) (durationMs sess)
                   else Null);
          sMs = newDateGetTime start;
          eMs = newDateGetTime end'
      in case (sMs, eMs) of
           (Num s, Num e) \<Rightarrow>
              if s = 0 \<or> e = 0 \<or> e \<le> s then Some cnts else dayLoop tz e s cnts
         | _ \<Rightarrow> Some cnts)"

text \<open>
  \<open>forEach\<close> from a given state of \<open>counts\<close>, and \<open>countsByDay\<close>, which starts from the empty
  object.
\<close>

fun forEachSession :: "zone \<Rightarrow> counts \<Rightarrow> session list \<Rightarrow> counts option" where
  "forEachSession tz cnts [] = Some cnts"
| "forEachSession tz cnts (sess # rest) =
     (case addSession tz cnts sess of
        None \<Rightarrow> None
      | Some cnts' \<Rightarrow> forEachSession tz cnts' rest)"

definition countsByDay :: "zone \<Rightarrow> session list \<Rightarrow> counts option" where
  "countsByDay tz fs = forEachSession tz [] fs"

text \<open>
  \<open>secondsToHMS\<close>. \<open>%\<close> is the remainder of the division that truncates, \<open>smod\<close>.
\<close>

record hms =
  hh :: int
  mm :: int
  ss :: int

definition secondsToHMS :: "real \<Rightarrow> hms" where
  "secondsToHMS sec =
     (let s = \<lfloor>sec\<rfloor>
      in \<lparr> hh = \<lfloor>real_of_int s / real_of_int SEC_PER_HOUR\<rfloor>,
           mm = \<lfloor>real_of_int (s smod SEC_PER_HOUR) / real_of_int MIN_PER_HOUR\<rfloor>,
           ss = s smod MIN_PER_HOUR \<rparr>)"

text \<open>
  \<open>stats\<close>. \<open>s.durationMs || 0\<close> is a number whatever the field holds, so the sum is an
  integer.
\<close>

definition durationOr0 :: "session \<Rightarrow> int" where
  "durationOr0 s = (case js_or (durationMs s) (Num 0) of Num n \<Rightarrow> n | _ \<Rightarrow> 0)"

record stats_result =
  total :: hms
  avg :: hms
  daysStudied :: nat

definition stats :: "session list \<Rightarrow> counts \<Rightarrow> stats_result" where
  "stats fs cnts =
     (let totalTime = foldl (\<lambda>sum s. sum + durationOr0 s) 0 fs;
          studyDays = (if length cnts = 0 then 1 else length cnts)
      in \<lparr> total = secondsToHMS (real_of_int totalTime / 1000),
           avg = secondsToHMS
                   (real_of_int \<lfloor>real_of_int totalTime / 1000 / real studyDays\<rfloor>),
           daysStudied = studyDays \<rparr>)"

section \<open>Notions of the specification\<close>

text \<open>
  The definitions of this section are not translated from the code: they say what the
  specification talks about, for the theorems to compare the code with.
\<close>

text \<open>
  A raw record whose stored fields already determine a consistent session: it has an end,
  and either no start (the start is then derived from the end and the duration) or a
  start together with a duration that equals end minus start.
\<close>

definition suppliesConsistent :: "session \<Rightarrow> bool" where
  "suppliesConsistent r =
     (truthy (endAt r) \<and>
      (nullish (startAt r) \<or>
       (truthy (durationMs r) \<and> strict_eq (durationMs r) (js_sub (endAt r) (startAt r)))))"

text \<open>
  The final duration of the stopwatch as the specification writes it:
  \<open>elapsedOffset + (running ? now - startAt : 0)\<close>.
\<close>

definition finalDuration :: "int \<Rightarrow> stopwatch \<Rightarrow> int" where
  "finalDuration now st =
     elapsedOffset st + (if isRunning st then now - numOrNull (sw_startAt st) else 0)"

text \<open>
  Two zones for concrete runs. A zone of fixed offset has one offset at every instant.
  \<open>newYork2024\<close> is the zone of New York during 2024: five hours west of UTC, four while
  daylight-saving time is in force, from 10 March, 07:00 UTC (02:00 local, which becomes
  03:00) until 3 November, 06:00 UTC (02:00 local, which becomes 01:00). Local times are
  resolved as the language definition says: the skipped hour of 10 March and the repeated
  hour of 3 November with the offset before the change.
\<close>

definition fixedZone :: "int \<Rightarrow> zone" where
  "fixedZone offset = \<lparr> utcOffset = (\<lambda>t. offset), localOffset = (\<lambda>t. offset) \<rparr>"

definition newYork2024 :: zone where
  "newYork2024 =
     \<lparr> utcOffset = (\<lambda>t. if 1710054000000 \<le> t \<and> t < 1730613600000
                          then - 14400000 else - 18000000),
       localOffset = (\<lambda>t. if t < 1710039600000 then - 18000000
                            else if t < 1730599200000 then - 14400000
                            else - 18000000) \<rparr>"

text \<open>
  What the day loop needs of a zone. \<open>nextDayLater\<close>: the instant that
  \<open>setHours(24, 0, 0, 0)\<close> gives is after the instant it started from. \<open>startsNextDay\<close>: that
  instant is the start of the next local calendar day, that is, it is later, the local
  date does not change before it, and at it the local date is a later one.
\<close>

definition nextDayLater :: "zone \<Rightarrow> bool" where
  "nextDayLater tz = (\<forall>cursor. cursor < setHours tz cursor 24 0 0 0)"

definition startsNextDay :: "zone \<Rightarrow> bool" where
  "startsNextDay tz =
     (\<forall>cursor.
        cursor < setHours tz cursor 24 0 0 0 \<and>
        (\<forall>t. cursor \<le> t \<and> t < setHours tz cursor 24 0 0 0 \<longrightarrow>
             Day (LocalTime tz t) = Day (LocalTime tz cursor)) \<and>
        Day (LocalTime tz cursor) < Day (LocalTime tz (setHours tz cursor 24 0 0 0)))"

text \<open>A zone whose offsets all lie less than a day apart.\<close>

definition offsetsWithinADay :: "zone \<Rightarrow> bool" where
  "offsetsWithinADay tz = (\<forall>t l. \<bar>utcOffset tz t - localOffset tz l\<bar> < MS_PER_DAY)"

text \<open>
  The number of local calendar days that the instants from \<open>sMs\<close> up to, not including,
  \<open>eMs\<close> fall on.
\<close>

definition daysSpanned :: "zone \<Rightarrow> int \<Rightarrow> int \<Rightarrow> nat" where
  "daysSpanned tz sMs eMs = card ((\<lambda>t. Day (LocalTime tz t)) ` {sMs..<eMs})"

text \<open>
  The cursor of the day loop after \<open>k\<close> passes through its body, each pass assigning
  \<open>Math.min(eMs, d.getTime())\<close> to it.
\<close>

definition cursorAfter :: "zone \<Rightarrow> int \<Rightarrow> int \<Rightarrow> nat \<Rightarrow> int" where
  "cursorAfter tz eMs sMs k = ((\<lambda>cursor. min eMs (setHours tz cursor 24 0 0 0)) ^^ k) sMs"

text \<open>
  What pass number \<open>k\<close> (from 0) through the body of the day loop does to the buckets: the
  segment runs from the cursor after \<open>k\<close> passes to the cursor after \<open>k + 1\<close> passes.
\<close>

definition loopPass :: "zone \<Rightarrow> int \<Rightarrow> int \<Rightarrow> counts \<Rightarrow> nat \<Rightarrow> counts" where
  "loopPass tz eMs sMs cnts k =
     bump (startOfDayISO tz (cursorAfter tz eMs sMs k))
          (round (real_of_int (cursorAfter tz eMs sMs (Suc k) - cursorAfter tz eMs sMs k) / 1000))
          cnts"

text \<open>
  The cutoff of each range, as the specification words it: the current instant less the
  calendar unit of the range. \<open>daysBefore\<close> is the instant at which the local clock shows
  the same time of day \<open>k\<close> days earlier. \<open>civilInstant\<close> is the instant at which the local
  clock shows a given date and time of day, a day that the month does not have running
  over into the next month; \<open>monthsBefore\<close> and \<open>yearsBefore\<close> take the local date and time
  of \<open>now\<close> and count the months or the years back.
\<close>

definition daysBefore :: "zone \<Rightarrow> int \<Rightarrow> int \<Rightarrow> int" where
  "daysBefore tz now k = UTC tz (LocalTime tz now - k * MS_PER_DAY)"

definition civilInstant :: "zone \<Rightarrow> int \<Rightarrow> int \<Rightarrow> int \<Rightarrow> int \<Rightarrow> int" where
  "civilInstant tz year month dt timeOfDay =
     UTC tz (MakeDate (MakeDay year month dt) timeOfDay)"

definition monthsBefore :: "zone \<Rightarrow> int \<Rightarrow> int \<Rightarrow> int" where
  "monthsBefore tz now k =
     (let lt = LocalTime tz now;
          months = 12 * YearFromTime lt + MonthFromTime lt - k
      in civilInstant tz (months div 12) (months mod 12) (DateFromTime lt)
           (TimeWithinDay lt))"

definition yearsBefore :: "zone \<Rightarrow> int \<Rightarrow> int \<Rightarrow> int" where
  "yearsBefore tz now k =
     (let lt = LocalTime tz now
      in civilInstant tz (YearFromTime lt - k) (MonthFromTime lt) (DateFromTime lt)
           (TimeWithinDay lt))"

definition rangeCutoff :: "zone \<Rightarrow> int \<Rightarrow> string \<Rightarrow> int" where
  "rangeCutoff tz now filterRange =
     (if filterRange = ''week'' then daysBefore tz now 7
      else if filterRange = ''2weeks'' then daysBefore tz now 14
      else if filterRange = ''month'' then monthsBefore tz now 1
      else if filterRange = ''3months'' then monthsBefore tz now 3
      else if filterRange = ''6months'' then monthsBefore tz now 6
      else yearsBefore tz now 1)"

text \<open>The seconds held by all buckets together, and the seconds in an \<open>hms\<close> triple.\<close>

definition bucketTotal :: "counts \<Rightarrow> int" where
  "bucketTotal cnts = sum_list (map snd cnts)"

definition hmsSeconds :: "hms \<Rightarrow> int" where
  "hmsSeconds t = hh t * 3600 + mm t * 60 + ss t"

text \<open>
  A host for concrete runs: its parsers reject every string, and its clock stands at
  10 May 2024, 10:00 UTC.
\<close>

definition hostEnv :: env where
  "hostEnv = \<lparr> rand_id = ''k3x9q2'', now_end = 1715335200000, now_start = 1715335200000,
               now_dur = 1715335200000, parseDate = (\<lambda>s. None), parseNumber = (\<lambda>s. None) \<rparr>"

definition atHost :: "nat \<Rightarrow> env" where
  "atHost i = hostEnv"

text \<open>
  An edit that the specification calls invalid: a start or an end that is missing or not
  a number, an end not after the start, or an end in the future.
\<close>

definition editRejected :: "int \<Rightarrow> draft \<Rightarrow> bool" where
  "editRejected now dr =
     (case startAt dr of
        Num sa \<Rightarrow>
          (case endAt dr of
             Num ea \<Rightarrow> ea \<le> sa \<or> now < ea
           | _ \<Rightarrow> True)
      | _ \<Rightarrow> True)"

text \<open>
  Two sessions for concrete runs, one that ended an hour before the host's clock and one
  that ended eight days before it, and the state of an editor opened on the first, in which
  the user has moved the end and rewritten the tags.
\<close>

definition mathSession :: session where
  "mathSession = \<lparr> id' = StrId ''a1'', startAt = Num 1715328000000,
                   endAt = Num 1715331600000, durationMs = Num 3600000, date = NoDate,
                   topic = Some ''algebra'', notes' = Some '''',
                   tags = Some [''math'', ''review''] \<rparr>"

definition historySession :: session where
  "historySession = \<lparr> id' = StrId ''b2'', startAt = Num 1714640400000,
                      endAt = Num 1714644000000, durationMs = Num 3600000, date = NoDate,
                      topic = Some ''(no topic)'', notes' = Some '''',
                      tags = Some [''history''] \<rparr>"

definition editingState :: app where
  "editingState =
     \<lparr> sessions = [mathSession, historySession],
       editingId = Some (StrId ''a1''),
       editDraft = Some (session.extend (mathSession \<lparr> endAt := Num 1715330000000 \<rparr>)
                          \<lparr> tagsInput = Some ''math, algebra'' \<rparr>) \<rparr>"

text \<open>
  The editor opened on the first session after the user has cleared the start field:
  \<open>fromLocalDatetimeString("")\<close> is \<open>null\<close>.
\<close>

definition clearedStartState :: app where
  "clearedStartState =
     \<lparr> sessions = [mathSession, historySession],
       editingId = Some (StrId ''a1''),
       editDraft = Some (session.extend (mathSession \<lparr> startAt := Null \<rparr>)
                          \<lparr> tagsInput = Some ''math, review'' \<rparr>) \<rparr>"

section \<open>Properties of the normalizer\<close>

lemma js_or_absorb: "js_or (js_or a b) b = js_or a b"
  by (simp add: js_or_def)

lemma js_or_truthy_right: "truthy b \<Longrightarrow> js_or (js_or a b) c = js_or a b"
  by (simp add: js_or_def)

lemma not_nullish_js_sub: "\<not> nullish (js_sub a b)"
  by (simp add: js_sub_def split: option.splits)

lemma js_coalesce_fixed:
  "\<not> nullish b \<Longrightarrow> js_coalesce (js_coalesce a b) c = js_coalesce a b"
  by (simp add: js_coalesce_def)

lemma normalized_fields:
  "id' (normalized e s) = (if truthy_id (id' s) then id' s else StrId (rand_id e))"
  "startAt (normalized e s) = js_coalesce (startAt s)
          (if truthy (endAt s) then js_sub (endAt s) (js_or (durationMs s) (Num 0))
           else Num (now_start e))"
  "endAt (normalized e s) = js_or (endAt s)
          (if truthy_date (date s) then dateGetTime e (date s) else Num (now_end e))"
  "durationMs (normalized e s) = js_or (durationMs s) (Num 0)"
  "date (normalized e s) = date s"
  "topic (normalized e s) = (if truthy_str (topic s) then topic s else Some ''(no topic)'')"
  "notes' (normalized e s) = (if truthy_str (notes' s) then notes' s else Some '''')"
  "tags (normalized e s) = (case tags s of Some ts \<Rightarrow> Some ts | None \<Rightarrow> Some [])"
  "session.more (normalized e s) = session.more s"
  by (simp_all add: normalized_def)

lemma normalized_invariant_one:
  assumes "suppliesConsistent r"
  shows "durationInvariant (normalized e r)"
proof -
  from assms obtain en where en: "endAt r = Num en" "en \<noteq> 0"
    by (cases "endAt r") (auto simp: suppliesConsistent_def)
  show ?thesis
  proof (cases "nullish (startAt r)")
    case True
    then show ?thesis
      by (cases "durationMs r")
         (auto simp: durationInvariant_def normalized_def en js_or_def js_coalesce_def
            js_sub_def)
  next
    case False
    with assms have d: "truthy (durationMs r)"
        "strict_eq (durationMs r) (js_sub (endAt r) (startAt r))"
      by (auto simp: suppliesConsistent_def)
    with False show ?thesis
      by (simp add: durationInvariant_def normalized_def en js_or_def js_coalesce_def)
  qed
qed

lemma normalized_legacy_invariant_one:
  assumes "suppliesConsistent r"
  shows "durationInvariant (normalized_legacy e r)"
proof -
  from assms obtain en where en: "endAt r = Num en" "en \<noteq> 0"
    by (cases "endAt r") (auto simp: suppliesConsistent_def)
  show ?thesis
  proof (cases "nullish (startAt r)")
    case True
    then show ?thesis
      by (cases "durationMs r"; cases "startAt r")
         (auto simp: durationInvariant_def normalized_legacy_def Let_def en js_or_def
            js_sub_def js_max0_def)
  next
    case False
    with assms have d: "truthy (durationMs r)"
        "strict_eq (durationMs r) (js_sub (endAt r) (startAt r))"
      by (auto simp: suppliesConsistent_def)
    with False show ?thesis
      by (cases "durationMs r"; cases "startAt r")
         (auto simp: durationInvariant_def normalized_legacy_def Let_def en js_or_def
            js_sub_def js_max0_def)
  qed
qed

lemma in_loadNormalized:
  assumes "s \<in> set (loadNormalized envAt stored)"
  shows "\<exists>i r. r \<in> set stored \<and> s = normalized (envAt i) r"
proof -
  from assms obtain i r
    where "(i, r) \<in> set (enumerate 0 stored)" "s = normalized (envAt i) r"
    by (auto simp: loadNormalized_def sortByEndDesc_def)
  then have "r \<in> set stored"
    by (auto simp: in_set_enumerate_eq)
  with \<open>s = normalized (envAt i) r\<close> show ?thesis
    by blast
qed

text \<open>
  Claim C1, as amended. Whatever the sequence of stored records, every session that the
  load step produces satisfies \<open>durationMs === endAt - startAt\<close> provided each raw record
  supplies a non-zero \<open>endAt\<close> and either no \<open>startAt\<close> or a \<open>startAt\<close> with a non-zero
  \<open>durationMs\<close> equal to \<open>endAt - startAt\<close>. The same holds of the earlier revision of the
  normalizer, record by record. A stored duration is kept, not recomputed.
\<close>

theorem normalized_duration_invariant:
  assumes "\<forall>r \<in> set stored. suppliesConsistent r"
  shows "(\<forall>s \<in> set (loadNormalized envAt stored). durationInvariant s) \<and>
         (\<forall>r \<in> set stored. durationInvariant (normalized_legacy e r))"
  using assms in_loadNormalized normalized_invariant_one normalized_legacy_invariant_one
  by blast

theorem normalized_duration_invariant_witness:
  "list_all suppliesConsistent
     [\<lparr> id' = NoId, startAt = Undefined, endAt = Num 5000, durationMs = Num 4000,
        date = NoDate, topic = None, notes' = None, tags = None \<rparr>,
      \<lparr> id' = StrId ''a1'', startAt = Num 1000, endAt = Num 5000, durationMs = Num 4000,
        date = NoDate, topic = Some ''math'', notes' = Some '''', tags = Some [] \<rparr>] \<and>
   list_all durationInvariant
     (loadNormalized atHost
       [\<lparr> id' = NoId, startAt = Undefined, endAt = Num 5000, durationMs = Num 4000,
          date = NoDate, topic = None, notes' = None, tags = None \<rparr>,
        \<lparr> id' = StrId ''a1'', startAt = Num 1000, endAt = Num 5000, durationMs = Num 4000,
          date = NoDate, topic = Some ''math'', notes' = Some '''', tags = Some [] \<rparr>])"
proof -
  let ?stored =
    "[\<lparr> id' = NoId, startAt = Undefined, endAt = Num 5000, durationMs = Num 4000,
        date = NoDate, topic = None, notes' = None, tags = None \<rparr>,
      \<lparr> id' = StrId ''a1'', startAt = Num 1000, endAt = Num 5000, durationMs = Num 4000,
        date = NoDate, topic = Some ''math'', notes' = Some '''', tags = Some [] \<rparr>]"
  have h: "\<forall>r \<in> set ?stored. suppliesConsistent r"
    by (simp add: suppliesConsistent_def js_sub_def)
  from normalized_duration_invariant [OF h, of atHost hostEnv]
  have "\<forall>s \<in> set (loadNormalized atHost ?stored). durationInvariant s"
    by blast
  with h show ?thesis
    unfolding list_all_iff by blast
qed

text \<open>
  The claim as written fails: a stored record with start 1000, end 5000 and a stored
  duration of 7 ms comes out of the load step with \<open>durationMs\<close> still 7.
\<close>

theorem normalized_trusts_stored_duration:
  "\<not> list_all durationInvariant
       (loadNormalized atHost
          [\<lparr> id' = StrId ''a1'', startAt = Num 1000, endAt = Num 5000, durationMs = Num 7,
             date = NoDate, topic = Some ''math'', notes' = Some '''', tags = Some [] \<rparr>])"
  by (simp add: loadNormalized_def sortByEndDesc_def normalized_def durationInvariant_def
      js_or_def js_coalesce_def js_sub_def)

text \<open>
  Where the two revisions part: for a record with start and end but no duration, the
  earlier revision computes the duration and \<open>App.js\<close> stores 0; for the legacy shape with
  only \<open>date\<close> and \<open>durationMs\<close>, the earlier revision derives the start from the date and
  \<open>App.js\<close> takes the current time.
\<close>

lemma normalized_missing_duration:
  "durationMs (normalized hostEnv
      \<lparr> id' = StrId ''a1'', startAt = Num 1000, endAt = Num 5000, durationMs = Undefined,
        date = NoDate, topic = None, notes' = None, tags = None \<rparr>) = Num 0"
  "durationMs (normalized_legacy hostEnv
      \<lparr> id' = StrId ''a1'', startAt = Num 1000, endAt = Num 5000, durationMs = Undefined,
        date = NoDate, topic = None, notes' = None, tags = None \<rparr>) = Num 4000"
  by (simp_all add: normalized_def normalized_legacy_def js_or_def js_sub_def js_max0_def)

lemma normalized_legacy_shape:
  "startAt (normalized hostEnv
      \<lparr> id' = NoId, startAt = Undefined, endAt = Undefined, durationMs = Num 60000,
        date = DateNum 1700000000000, topic = None, notes' = None, tags = None \<rparr>)
     = Num 1715335200000"
  "startAt (normalized_legacy hostEnv
      \<lparr> id' = NoId, startAt = Undefined, endAt = Undefined, durationMs = Num 60000,
        date = DateNum 1700000000000, topic = None, notes' = None, tags = None \<rparr>)
     = Num 1699999940000"
  by (simp_all add: normalized_def normalized_legacy_def hostEnv_def js_or_def js_sub_def
      js_coalesce_def js_max0_def)

text \<open>
  Claim C4. Normalizing a normalized record changes nothing: in the same environment,
  and also at a later reading of the clock with another random string, as long as the
  first run drew a non-empty id and did not read the clock at 0.
\<close>

theorem normalized_idempotent:
  "normalized e (normalized e x) = normalized e x \<and>
   (rand_id e \<noteq> [] \<and> now_end e \<noteq> 0 \<longrightarrow>
      normalized (e \<lparr> rand_id := r, now_end := a, now_start := b, now_dur := c \<rparr>)
        (normalized e x) = normalized e x)"
proof (intro conjI impI)
  show "normalized e (normalized e x) = normalized e x"
  proof (rule session.equality)
    show "startAt (normalized e (normalized e x)) = startAt (normalized e x)"
      by (simp add: normalized_fields js_coalesce_fixed not_nullish_js_sub)
    show "endAt (normalized e (normalized e x)) = endAt (normalized e x)"
      by (simp add: normalized_fields js_or_absorb)
    show "durationMs (normalized e (normalized e x)) = durationMs (normalized e x)"
      by (simp add: normalized_fields js_or_absorb)
    show "tags (normalized e (normalized e x)) = tags (normalized e x)"
      by (simp add: normalized_fields split: option.splits)
  qed (simp_all add: normalized_fields)
next
  let ?e' = "e \<lparr> rand_id := r, now_end := a, now_start := b, now_dur := c \<rparr>"
  assume env: "rand_id e \<noteq> [] \<and> now_end e \<noteq> 0"
  show "normalized ?e' (normalized e x) = normalized e x"
  proof (rule session.equality)
    have pd: "dateGetTime ?e' (date x) = dateGetTime e (date x)"
      by (cases "date x") simp_all
    show "startAt (normalized ?e' (normalized e x)) = startAt (normalized e x)"
      by (simp add: normalized_fields js_coalesce_fixed not_nullish_js_sub)
    show "endAt (normalized ?e' (normalized e x)) = endAt (normalized e x)"
      using env by (simp add: normalized_fields js_or_absorb js_or_truthy_right pd)
    show "durationMs (normalized ?e' (normalized e x)) = durationMs (normalized e x)"
      by (simp add: normalized_fields js_or_absorb)
    show "tags (normalized ?e' (normalized e x)) = tags (normalized e x)"
      by (simp add: normalized_fields split: option.splits)
    show "id' (normalized ?e' (normalized e x)) = id' (normalized e x)"
      using env by (simp add: normalized_fields)
  qed (simp_all add: normalized_fields)
qed

theorem normalized_idempotent_witness:
  "rand_id hostEnv \<noteq> [] \<and> now_end hostEnv \<noteq> 0 \<and>
   normalized (hostEnv \<lparr> rand_id := ''zz81'', now_end := 1715335200777,
                         now_start := 1715335200778, now_dur := 1715335200779 \<rparr>)
     (normalized hostEnv
        \<lparr> id' = NoId, startAt = Undefined, endAt = Undefined, durationMs = Num 60000,
          date = NoDate, topic = None, notes' = None, tags = None \<rparr>)
   = normalized hostEnv
        \<lparr> id' = NoId, startAt = Undefined, endAt = Undefined, durationMs = Num 60000,
          date = NoDate, topic = None, notes' = None, tags = None \<rparr>"
proof -
  have h: "rand_id hostEnv \<noteq> [] \<and> now_end hostEnv \<noteq> 0"
    by (simp add: hostEnv_def)
  with normalized_idempotent [where e = hostEnv and r = "''zz81''"
      and a = 1715335200777 and b = 1715335200778 and c = 1715335200779]
  show ?thesis
    by blast
qed

section \<open>Properties of the stopwatch\<close>

text \<open>
  Claim C5. Whatever the state and the time, \<open>stop()\<close> leaves the stopwatch idle
  (not running, no start, no elapsed offset). It returns \<open>null\<close> exactly when the final
  duration \<open>elapsedOffset + (isRunning ? now - startAt : 0)\<close> is at most 0; otherwise it
  returns the draft with \<open>endAt = now\<close>, \<open>startAt = now - duration\<close> and
  \<open>durationMs = duration\<close>, so that \<open>endAt - startAt = durationMs\<close>.
\<close>

theorem stop_returns:
  "fst (stop now st) = idle \<and>
   (snd (stop now st) = None) = (finalDuration now st \<le> 0) \<and>
   (0 < finalDuration now st \<longrightarrow>
      snd (stop now st) = Some \<lparr> res_durationMs = finalDuration now st,
                                  res_startAt = now - finalDuration now st,
                                  res_endAt = now \<rparr>) \<and>
   (\<forall>r. snd (stop now st) = Some r \<longrightarrow> res_endAt r - res_startAt r = res_durationMs r)"
  by (cases st) (auto simp: stop_def idle_def finalDuration_def Let_def)

theorem stop_returns_witness:
  "0 < finalDuration 2000 \<lparr> isRunning = True, sw_startAt = Some 1000, elapsedOffset = 500 \<rparr> \<and>
   stop 2000 \<lparr> isRunning = True, sw_startAt = Some 1000, elapsedOffset = 500 \<rparr> =
     (idle, Some \<lparr> res_durationMs = 1500, res_startAt = 500, res_endAt = 2000 \<rparr>)"
proof -
  let ?st = "\<lparr> isRunning = True, sw_startAt = Some 1000, elapsedOffset = 500 \<rparr>"
  have d: "finalDuration 2000 ?st = 1500"
    by (simp add: finalDuration_def numOrNull_def)
  then have h: "0 < finalDuration 2000 ?st"
    by simp
  from stop_returns [of 2000 ?st] h
  have "fst (stop 2000 ?st) = idle"
    and "snd (stop 2000 ?st) = Some \<lparr> res_durationMs = finalDuration 2000 ?st,
            res_startAt = 2000 - finalDuration 2000 ?st, res_endAt = 2000 \<rparr>"
    by blast+
  with d h show ?thesis
    by (simp add: prod_eq_iff)
qed

section \<open>Properties of the colour tiers\<close>

lemma tierRank_colorForCount:
  "tierRank (colorForCount s) =
     (if s < 1 then 0 else if s < 1800 then 1 else if s < 3600 then 2
      else if s < 7200 then 3 else if s < 10800 then 4 else if s < 14400 then 5
      else if s < 18000 then 6 else if s < 21600 then 7 else if s < 25200 then 8 else 9)"
  by (simp add: colorForCount_def DEFAULT_THRESHOLDS_def tierRank_def TIERS_def Let_def)

text \<open>
  Claim C9. \<open>colorForCount\<close> never moves to a lower tier when the seconds grow, it
  returns the lowest tier for an argument that is 0 or negative, and its value is always
  one of the ten tiers.
\<close>

theorem colorForCount_monotone:
  "(a \<le> b \<longrightarrow> tierRank (colorForCount a) \<le> tierRank (colorForCount b)) \<and>
   (s \<le> 0 \<longrightarrow> colorForCount s = TIERS ! 0) \<and>
   colorForCount a \<in> set TIERS"
proof (intro conjI impI)
  assume "a \<le> b"
  then show "tierRank (colorForCount a) \<le> tierRank (colorForCount b)"
    unfolding tierRank_colorForCount by (simp split: if_splits)
next
  assume "s \<le> 0"
  then show "colorForCount s = TIERS ! 0"
    by (simp add: colorForCount_def TIERS_def Let_def)
next
  show "colorForCount a \<in> set TIERS"
    by (simp add: colorForCount_def TIERS_def DEFAULT_THRESHOLDS_def Let_def)
qed

theorem colorForCount_monotone_witness:
  "(1799::real) \<le> 1800 \<and> tierRank (colorForCount 1799) \<le> tierRank (colorForCount 1800) \<and>
   tierRank (colorForCount 1799) = 1 \<and> tierRank (colorForCount 1800) = 2 \<and>
   (-5::real) \<le> 0 \<and> colorForCount (-5) = ''bg-gray-700''"
proof -
  have h1: "(1799::real) \<le> 1800" and h2: "(-5::real) \<le> 0"
    by simp_all
  from colorForCount_monotone [of 1799 1800 "-5"] h1 h2
  have "tierRank (colorForCount 1799) \<le> tierRank (colorForCount 1800)"
    and "colorForCount (-5) = TIERS ! 0"
    by blast+
  moreover have "tierRank (colorForCount 1799) = 1" "tierRank (colorForCount 1800) = 2"
    by (simp_all add: tierRank_colorForCount)
  ultimately show ?thesis
    by (simp add: TIERS_def)
qed

section \<open>Properties of editing\<close>

text \<open>
  What \<open>saveEdit\<close> does when its three guards pass: \<open>Number\<close> turns the draft's start and end
  into \<open>sa\<close> and \<open>ea\<close>.
\<close>

lemma saveEdit_accepted:
  assumes "editDraft st = Some dr"
    and "toNumber (startAt dr) = Some sa" "toNumber (endAt dr) = Some ea"
    and "sa < ea" "ea \<le> now"
  shows "saveEdit now st =
     (None, st \<lparr> sessions :=
                   map (\<lambda>s. if Some (id' s) = editingId st
                            then session.truncate
                                   (dr \<lparr> durationMs := Num (ea - sa),
                                         tags := Some (parseTags (tagsInput dr)) \<rparr>)
                            else s) (sessions st),
                 editingId := None, editDraft := None \<rparr>)"
  using assms by (simp add: saveEdit_def Let_def)

lemma saveEdit_refused:
  assumes "editDraft st = Some dr"
    and "toNumber (startAt dr) = None \<or> toNumber (endAt dr) = None \<or>
         (\<exists>sa ea. toNumber (startAt dr) = Some sa \<and> toNumber (endAt dr) = Some ea \<and>
                  (ea \<le> sa \<or> now < ea))"
  shows "fst (saveEdit now st) \<noteq> None \<and> snd (saveEdit now st) = st"
  using assms by (auto simp: saveEdit_def split: option.splits)

text \<open>
  On a draft whose start and end are numbers the code does what claim C6 says: an
  invalid edit is refused with a message and the state stays as it was; a valid one
  replaces the sessions with the edited id, and only those, by the draft's fields with
  \<open>durationMs = endAt - startAt\<close>.
\<close>

lemma saveEdit_on_numbers:
  assumes "editDraft st = Some dr" "startAt dr = Num sa" "endAt dr = Num ea"
  shows "(editRejected now dr \<longrightarrow>
            fst (saveEdit now st) \<noteq> None \<and> snd (saveEdit now st) = st) \<and>
         (\<not> editRejected now dr \<longrightarrow>
            fst (saveEdit now st) = None \<and>
            length (sessions (snd (saveEdit now st))) = length (sessions st) \<and>
            (\<forall>i < length (sessions st).
               let s = sessions st ! i; s' = sessions (snd (saveEdit now st)) ! i
               in if Some (id' s) = editingId st
                  then id' s' = id' dr \<and> startAt s' = startAt dr \<and> endAt s' = endAt dr \<and>
                       durationMs s' = js_sub (endAt dr) (startAt dr) \<and>
                       durationInvariant s' \<and>
                       topic s' = topic dr \<and> notes' s' = notes' dr \<and>
                       tags s' = Some (parseTags (tagsInput dr))
                  else s' = s))"
proof (intro conjI impI)
  assume r: "editRejected now dr"
  then have "ea \<le> sa \<or> now < ea"
    by (simp add: editRejected_def assms)
  then have "fst (saveEdit now st) \<noteq> None \<and> snd (saveEdit now st) = st"
    by (intro saveEdit_refused [OF assms(1)]) (simp add: assms)
  then show "fst (saveEdit now st) \<noteq> None" and "snd (saveEdit now st) = st"
    by simp_all
next
  assume a: "\<not> editRejected now dr"
  then have "sa < ea" "ea \<le> now"
    by (simp_all add: editRejected_def assms)
  then have eq: "saveEdit now st =
     (None, st \<lparr> sessions :=
                   map (\<lambda>s. if Some (id' s) = editingId st
                            then session.truncate
                                   (dr \<lparr> durationMs := Num (ea - sa),
                                         tags := Some (parseTags (tagsInput dr)) \<rparr>)
                            else s) (sessions st),
                 editingId := None, editDraft := None \<rparr>)"
    by (intro saveEdit_accepted [OF assms(1)]) (simp_all add: assms)
  show "fst (saveEdit now st) = None"
    by (simp add: eq)
  show "length (sessions (snd (saveEdit now st))) = length (sessions st)"
    by (simp add: eq)
  show "\<forall>i < length (sessions st).
               let s = sessions st ! i; s' = sessions (snd (saveEdit now st)) ! i
               in if Some (id' s) = editingId st
                  then id' s' = id' dr \<and> startAt s' = startAt dr \<and> endAt s' = endAt dr \<and>
                       durationMs s' = js_sub (endAt dr) (startAt dr) \<and>
                       durationInvariant s' \<and>
                       topic s' = topic dr \<and> notes' s' = notes' dr \<and>
                       tags s' = Some (parseTags (tagsInput dr))
                  else s' = s"
    by (simp add: eq Let_def session.truncate_def durationInvariant_def js_sub_def assms)
qed

text \<open>
  An edit that moves the end of the first session to 1715330000000 and rewrites its tags
  is accepted: the duration becomes 2000000 ms and the other session stays as it was.
\<close>

lemma saveEdit_example:
  "\<not> editRejected 1715335200000 (the (editDraft editingState)) \<and>
   fst (saveEdit 1715335200000 editingState) = None \<and>
   sessions (snd (saveEdit 1715335200000 editingState)) =
     [mathSession \<lparr> endAt := Num 1715330000000, durationMs := Num 2000000,
                    tags := Some [''math'', ''algebra''] \<rparr>, historySession]"
  by (simp add: editingState_def editRejected_def saveEdit_def session.extend_def
      session.truncate_def mathSession_def historySession_def parseTags_def trim_def
      isSpace_def Let_def)

text \<open>
  A start or an end that is \<open>undefined\<close> or NaN is refused as well. A start that is
  \<open>null\<close> is not: \<open>Number(null)\<close> is 0, so the draft passes \<open>isNaN\<close>, and with an end that
  is a number after 1970 and not in the future it passes the other two guards too. The
  session is then stored with no start and with the end itself as its duration.
\<close>

lemma saveEdit_undefined_or_NaN:
  assumes "editDraft st = Some dr"
    and "startAt dr = Undefined \<or> startAt dr = NaN \<or> endAt dr = Undefined \<or> endAt dr = NaN"
  shows "editRejected now dr \<and> fst (saveEdit now st) \<noteq> None \<and> snd (saveEdit now st) = st"
proof -
  have "toNumber (startAt dr) = None \<or> toNumber (endAt dr) = None"
    using assms(2) by auto
  then have "fst (saveEdit now st) \<noteq> None \<and> snd (saveEdit now st) = st"
    by (intro saveEdit_refused [OF assms(1)]) blast
  moreover have "editRejected now dr"
    using assms(2) by (auto simp: editRejected_def split: jsnum.splits)
  ultimately show ?thesis
    by simp
qed

lemma saveEdit_null_start:
  assumes "editDraft st = Some dr" "startAt dr = Null" "endAt dr = Num ea"
    and "0 < ea" "ea \<le> now"
  shows "editRejected now dr"
    and "saveEdit now st =
     (None, st \<lparr> sessions :=
                   map (\<lambda>s. if Some (id' s) = editingId st
                            then session.truncate
                                   (dr \<lparr> durationMs := Num ea,
                                         tags := Some (parseTags (tagsInput dr)) \<rparr>)
                            else s) (sessions st),
                 editingId := None, editDraft := None \<rparr>)"
proof -
  show "editRejected now dr"
    by (simp add: editRejected_def assms)
  show "saveEdit now st =
     (None, st \<lparr> sessions :=
                   map (\<lambda>s. if Some (id' s) = editingId st
                            then session.truncate
                                   (dr \<lparr> durationMs := Num ea,
                                         tags := Some (parseTags (tagsInput dr)) \<rparr>)
                            else s) (sessions st),
                 editingId := None, editDraft := None \<rparr>)"
    using saveEdit_accepted [OF assms(1), of 0 ea now] assms by simp
qed

text \<open>
  Claim C6 asks that an invalid edit, which by the specification includes one with a
  missing start or end, be refused with a message and leave the sessions unchanged. The
  code accepts the draft whose start field the user has cleared: no message, and the
  edited session comes out with \<open>startAt\<close> \<open>null\<close> and a \<open>durationMs\<close> equal to its
  \<open>endAt\<close>, 1715331600000 ms.
\<close>

theorem saveEdit_accepts_cleared_start:
  "editRejected 1715335200000 (the (editDraft clearedStartState)) \<and>
   fst (saveEdit 1715335200000 clearedStartState) = None \<and>
   sessions (snd (saveEdit 1715335200000 clearedStartState)) =
     [mathSession \<lparr> startAt := Null, durationMs := Num 1715331600000 \<rparr>, historySession] \<and>
   editDraft (snd (saveEdit 1715335200000 clearedStartState)) = None"
  by (simp add: clearedStartState_def editRejected_def saveEdit_def session.extend_def
      session.truncate_def mathSession_def historySession_def parseTags_def trim_def
      isSpace_def Let_def)
section \<open>Properties of dates\<close>

text \<open>
  \<open>YearFromDay\<close> is the year of the language definition: the greatest year that starts on
  or before the day.
\<close>

lemma div_bounds:
  fixes z n :: int
  assumes "0 < n"
  shows "n * (z div n) \<le> z" and "z < n * (z div n) + n"
proof -
  have "z mod n < n" "0 \<le> z mod n"
    using assms by simp_all
  then show "n * (z div n) \<le> z" and "z < n * (z div n) + n"
    using mult_div_mod_eq [of n z] by linarith+
qed

lemma DayFromYear_estimate:
  "146097 * (y - 1970) - 607 \<le> 400 * DayFromYear y"
  "400 * DayFromYear y \<le> 146097 * (y - 1970) + 593"
proof -
  define q4 where "q4 = (y - 1969) div 4"
  define q100 where "q100 = (y - 1901) div 100"
  define q400 where "q400 = (y - 1601) div 400"
  have b: "4 * q4 \<le> y - 1969" "y - 1969 < 4 * q4 + 4"
    "100 * q100 \<le> y - 1901" "y - 1901 < 100 * q100 + 100"
    "400 * q400 \<le> y - 1601" "y - 1601 < 400 * q400 + 400"
    unfolding q4_def q100_def q400_def by (simp_all add: div_bounds)
  have d: "DayFromYear y = 365 * (y - 1970) + q4 - q100 + q400"
    by (simp add: DayFromYear_def q4_def q100_def q400_def)
  show "146097 * (y - 1970) - 607 \<le> 400 * DayFromYear y"
    unfolding d using b by (simp add: algebra_simps)
  show "400 * DayFromYear y \<le> 146097 * (y - 1970) + 593"
    unfolding d using b by (simp add: algebra_simps)
qed

lemma YearFromDay_bracket:
  "DayFromYear (YearFromDay d) \<le> d \<and> d < DayFromYear (YearFromDay d + 1)"
proof -
  define y where "y = 1970 + (400 * d) div 146097"
  have lo: "146097 * (y - 1970) \<le> 400 * d" and hi: "400 * d < 146097 * (y - 1969)"
    unfolding y_def
    using div_bounds(1) [of 146097 "400 * d"] div_bounds(2) [of 146097 "400 * d"]
    by simp_all
  have a: "DayFromYear (y - 1) \<le> d"
    using lo DayFromYear_estimate(2) [of "y - 1"] by (simp add: algebra_simps)
  have b: "d < DayFromYear (y + 2)"
    using hi DayFromYear_estimate(1) [of "y + 2"] by (simp add: algebra_simps)
  have c: "y + 1 + 1 = y + 2" "y - 1 + 1 = y"
    by simp_all
  show ?thesis
    using a b unfolding YearFromDay_def y_def [symmetric] Let_def
    by (simp add: c)
qed


lemma DayFromYear_less_next: "DayFromYear y < DayFromYear (y + 1)"
proof -
  define q4 where "q4 = (y - 1969) div 4"
  define q100 where "q100 = (y - 1901) div 100"
  define q400 where "q400 = (y - 1601) div 400"
  define r4 where "r4 = (y - 1968) div 4"
  define r100 where "r100 = (y - 1900) div 100"
  define r400 where "r400 = (y - 1600) div 400"
  have b: "4 * q4 \<le> y - 1969" "y - 1901 < 100 * q100 + 100" "400 * q400 \<le> y - 1601"
    unfolding q4_def q100_def q400_def by (simp_all add: div_bounds)
  have c: "4 * r4 \<le> y - 1968" "y - 1968 < 4 * r4 + 4"
    "100 * r100 \<le> y - 1900" "y - 1900 < 100 * r100 + 100"
    "400 * r400 \<le> y - 1600" "y - 1600 < 400 * r400 + 400"
    unfolding r4_def r100_def r400_def by (simp_all add: div_bounds)
  have "q4 \<le> r4" "r100 \<le> q100 + 1" "q400 \<le> r400"
    using b c by linarith+
  moreover have "DayFromYear y = 365 * (y - 1970) + q4 - q100 + q400"
    by (simp add: DayFromYear_def q4_def q100_def q400_def)
  moreover have "DayFromYear (y + 1) = 365 * (y - 1969) + r4 - r100 + r400"
    by (simp add: DayFromYear_def r4_def r100_def r400_def)
  ultimately show ?thesis
    by (simp add: algebra_simps)
qed

lemma DayFromYear_mono: "y \<le> y' \<Longrightarrow> DayFromYear y \<le> DayFromYear y'"
proof (induction y' rule: int_ge_induct)
  case base
  show ?case by simp
next
  case (step i)
  then show ?case
    using DayFromYear_less_next [of i] by linarith
qed

lemma YearFromDay_greatest: "DayFromYear y \<le> d \<Longrightarrow> y \<le> YearFromDay d"
proof (rule ccontr)
  assume le: "DayFromYear y \<le> d" and "\<not> y \<le> YearFromDay d"
  then have "YearFromDay d + 1 \<le> y"
    by simp
  then have "DayFromYear (YearFromDay d + 1) \<le> DayFromYear y"
    by (rule DayFromYear_mono)
  with le YearFromDay_bracket [of d] show False
    by linarith
qed

text \<open>In a zone of fixed offset both conversions use that offset.\<close>

lemma fixedZone_times:
  "LocalTime (fixedZone offset) t = t + offset"
  "UTC (fixedZone offset) t = t - offset"
  by (simp_all add: LocalTime_def UTC_def fixedZone_def)

lemma MonthFromTime_range: "0 \<le> MonthFromTime t \<and> MonthFromTime t \<le> 11"
  by (simp add: MonthFromTime_def Let_def)

lemma MakeDay_of_parts:
  "MakeDay (YearFromTime t) (MonthFromTime t) (DateFromTime t + k) = Day t + k"
proof -
  have "MonthFromTime t div 12 = 0" "MonthFromTime t mod 12 = MonthFromTime t"
    using MonthFromTime_range [of t] by simp_all
  then show ?thesis
    by (simp add: MakeDay_def DateFromTime_def DayWithinYear_def InLeapYear_def)
qed

text \<open>
  Moving the date of the month by \<open>k\<close> days moves the local time by \<open>k\<close> days, in every
  zone: \<open>setDate(getDate() - k)\<close> is the instant \<open>k\<close> calendar days before.
\<close>

lemma setDate_shift:
  "setDate tz t (getDate tz t + k) = UTC tz (LocalTime tz t + k * MS_PER_DAY)"
proof -
  define lt where "lt = LocalTime tz t"
  have "Day lt * MS_PER_DAY + TimeWithinDay lt = lt"
    by (simp add: Day_def TimeWithinDay_def)
  then have "MakeDate (Day lt + k) (TimeWithinDay lt) = lt + k * MS_PER_DAY"
    by (simp add: MakeDate_def algebra_simps)
  then show ?thesis
    unfolding setDate_def getDate_def Let_def lt_def [symmetric] MakeDay_of_parts
    by simp
qed

lemma setDate_daysBefore: "setDate tz now (getDate tz now - k) = daysBefore tz now k"
  using setDate_shift [of tz now "- k"] by (simp add: daysBefore_def)

text \<open>
  \<open>MakeDay\<close> carries a month outside 0 to 11 into the year, so \<open>setMonth(getMonth() - k)\<close>
  counts \<open>k\<close> months back, and \<open>setFullYear(getFullYear() - k)\<close> counts \<open>k\<close> years back.
\<close>

lemma MakeDay_carries_months:
  "MakeDay y m d = MakeDay ((12 * y + m) div 12) ((12 * y + m) mod 12) d"
proof -
  have "(12 * y + m) div 12 = y + m div 12" "(12 * y + m) mod 12 = m mod 12"
    by simp_all
  then show ?thesis
    by (simp add: MakeDay_def)
qed

lemma setMonth_monthsBefore: "setMonth tz now (getMonth tz now - k) = monthsBefore tz now k"
proof -
  define lt where "lt = LocalTime tz now"
  have "MakeDay (YearFromTime lt) (MonthFromTime lt - k) (DateFromTime lt)
      = MakeDay ((12 * YearFromTime lt + MonthFromTime lt - k) div 12)
                ((12 * YearFromTime lt + MonthFromTime lt - k) mod 12) (DateFromTime lt)"
    using MakeDay_carries_months [of "YearFromTime lt" "MonthFromTime lt - k" "DateFromTime lt"]
    by (simp add: algebra_simps)
  then show ?thesis
    unfolding setMonth_def getMonth_def monthsBefore_def civilInstant_def Let_def
      lt_def [symmetric]
    by simp
qed

lemma setFullYear_yearsBefore:
  "setFullYear tz now (getFullYear tz now - k) = yearsBefore tz now k"
  by (simp add: setFullYear_def getFullYear_def yearsBefore_def civilInstant_def Let_def)

lemma getDateCutoff_rangeCutoff: "getDateCutoff tz now filterRange = rangeCutoff tz now filterRange"
  by (simp add: getDateCutoff_def rangeCutoff_def setDate_daysBefore setMonth_monthsBefore
      setFullYear_yearsBefore)

text \<open>
  Where the offsets of the zone lie less than a day apart, the instant \<open>k\<close> calendar days
  before \<open>now\<close> lies between \<open>k - 1\<close> and \<open>k + 1\<close> days before it. In a zone of fixed offset
  it is \<open>k\<close> days before, to the millisecond.
\<close>

lemma daysBefore_bounds:
  assumes "offsetsWithinADay tz"
  shows "now - (k + 1) * MS_PER_DAY < daysBefore tz now k"
    and "daysBefore tz now k < now - (k - 1) * MS_PER_DAY"
proof -
  have "\<bar>utcOffset tz now - localOffset tz (LocalTime tz now - k * MS_PER_DAY)\<bar> < MS_PER_DAY"
    using assms by (simp add: offsetsWithinADay_def)
  then show "now - (k + 1) * MS_PER_DAY < daysBefore tz now k"
    and "daysBefore tz now k < now - (k - 1) * MS_PER_DAY"
    by (simp_all add: daysBefore_def UTC_def LocalTime_def algebra_simps)
qed

lemma daysBefore_fixedZone: "daysBefore (fixedZone offset) now k = now - k * MS_PER_DAY"
  by (simp add: daysBefore_def fixedZone_times)

lemma offsetsWithinADay_fixedZone: "offsetsWithinADay (fixedZone offset)"
  by (simp add: offsetsWithinADay_def fixedZone_def MS_PER_DAY_def)

lemma offsetsWithinADay_newYork2024: "offsetsWithinADay newYork2024"
  by (simp add: offsetsWithinADay_def newYork2024_def MS_PER_DAY_def)

section \<open>Properties of the day key\<close>

text \<open>
  The first ten characters of \<open>toISOString\<close> are the date part, and they depend on the
  day number only.
\<close>

lemma length_pad: "w \<le> length (pad w n)"
  by (simp add: pad_def padStart0_def)

lemma length_isoYear: "4 \<le> length (isoYear y)"
  using length_pad [of 4 y] length_pad [of 6 "\<bar>y\<bar>"] by (simp add: isoYear_def)

lemma toISOString_date_part:
  "take 10 (toISOString t) =
     take 10 (isoYear (YearFromTime t) @ ''-'' @ pad 2 (MonthFromTime t + 1) @ ''-''
                @ pad 2 (DateFromTime t))"
proof -
  define A where "A = isoYear (YearFromTime t) @ ''-'' @ pad 2 (MonthFromTime t + 1) @ ''-''
                @ pad 2 (DateFromTime t)"
  have "10 \<le> length A"
    using length_isoYear [of "YearFromTime t"] length_pad [of 2 "MonthFromTime t + 1"]
      length_pad [of 2 "DateFromTime t"]
    by (simp add: A_def)
  then have "take 10 (A @ B) = take 10 A" for B
    by simp
  moreover have "\<exists>B. toISOString t = A @ B"
    by (simp add: toISOString_def A_def)
  ultimately show ?thesis
    unfolding A_def [symmetric] by metis
qed

lemma same_Day_same_date:
  assumes "Day a = Day b"
  shows "take 10 (toISOString a) = take 10 (toISOString b)"
proof -
  have y: "YearFromTime a = YearFromTime b"
    by (simp add: YearFromTime_def assms)
  then have l: "InLeapYear a = InLeapYear b" and w: "DayWithinYear a = DayWithinYear b"
    by (simp_all add: InLeapYear_def DayWithinYear_def assms)
  then have m: "MonthFromTime a = MonthFromTime b"
    by (simp add: MonthFromTime_def)
  with l w have "DateFromTime a = DateFromTime b"
    by (simp add: DateFromTime_def)
  with y m show ?thesis
    by (simp add: toISOString_date_part)
qed

lemma Day_shift: "Day (q * MS_PER_DAY + r) = q + Day r"
  by (simp add: Day_def MS_PER_DAY_def)

lemma startOfDayISO_west:
  assumes "- MS_PER_DAY < offset" "offset \<le> 0"
  shows "startOfDayISO (fixedZone offset) t = localDayISO (fixedZone offset) t"
proof -
  have "Day (- offset) = 0"
    using assms by (simp add: Day_def MS_PER_DAY_def)
  then have "Day (setHours (fixedZone offset) t 0 0 0 0) = Day (LocalTime (fixedZone offset) t)"
    using Day_shift [of "Day (t + offset)" "- offset"]
    by (simp add: setHours_def fixedZone_times MakeDate_def MakeTime_def)
  then show ?thesis
    unfolding startOfDayISO_def localDayISO_def by (rule same_Day_same_date)
qed

lemma startOfDayISO_east:
  assumes "0 < offset" "offset \<le> MS_PER_DAY"
  shows "startOfDayISO (fixedZone offset) t = localDayISO (fixedZone offset) (t - MS_PER_DAY)"
proof -
  have "Day (- offset) = - 1"
    using assms by (simp add: Day_def MS_PER_DAY_def div_eq_minus1 zdiv_eq_0_iff del: zdiv_zminus1_eq_if zdiv_zminus2_eq_if)
  then have a: "Day (setHours (fixedZone offset) t 0 0 0 0) = Day (t + offset) - 1"
    using Day_shift [of "Day (t + offset)" "- offset"]
    by (simp add: setHours_def fixedZone_times MakeDate_def MakeTime_def)
  have "Day (t - MS_PER_DAY + offset) = Day (t + offset) - 1"
    using Day_shift [of "-1" "t + offset"] by (simp add: algebra_simps)
  with a show ?thesis
    unfolding startOfDayISO_def localDayISO_def fixedZone_times
    by (intro same_Day_same_date) simp
qed

text \<open>
  Claim C2 asks that \<open>startOfDayISO\<close> return the identifier of the local calendar day
  that contains the timestamp. The code does so at and west of UTC
  (\<open>startOfDayISO_west\<close>); east of UTC it returns the day before
  (\<open>startOfDayISO_east\<close>), because \<open>toISOString\<close> prints local midnight in UTC. In a
  zone two hours east of UTC, the instant 10 May 2024, 12:00 local time, gets the key of
  9 May.
\<close>

theorem startOfDayISO_east_of_UTC:
  "startOfDayISO (fixedZone 7200000) 1715335200000 = ''2024-05-09'' \<and>
   localDayISO (fixedZone 7200000) 1715335200000 = ''2024-05-10'' \<and>
   toISOString (LocalTime (fixedZone 7200000) 1715335200000) = ''2024-05-10T12:00:00.000Z''"
  by code_simp

section \<open>Properties of the filter\<close>

lemma js_ge_Num:
  "js_ge a (Num c) = (\<exists>t. toNumber a = Some t \<and> c \<le> t)"
  by (cases a) (simp_all add: js_ge_def)

lemma list_ex_tags:
  "list_ex (\<lambda>tag. tag \<in> set sel) ts = (set ts \<inter> set sel \<noteq> {})"
  by (auto simp: list_ex_iff)

lemma filteredSessions_filter:
  "filteredSessions tz now filterRange selectedTags sess =
     filter (\<lambda>s. (\<exists>t. toNumber (if truthy (endAt s) then endAt s else startAt s) = Some t \<and>
                      getDateCutoff tz now filterRange \<le> t) \<and>
                 (selectedTags = [] \<or> set (tagsOrEmpty s) \<inter> set selectedTags \<noteq> {}))
       sess"
  by (cases "selectedTags = []")
     (simp_all add: filteredSessions_def Let_def js_ge_Num js_or_def list_ex_tags cong: filter_cong)

text \<open>
  Claim C7. In every zone and for every range, the cutoff that the code computes is the
  current instant less the calendar unit of the range (\<open>rangeCutoff\<close>: seven or fourteen
  calendar days, one, three or six months, one year, each counted on the local clock), and
  the filter keeps, in their order, exactly the sessions whose \<open>endAt\<close> (or \<open>startAt\<close> when
  \<open>endAt\<close> is missing or 0) is a number not below that cutoff, and, when tags are selected,
  that carry at least one selected tag. Where the offsets of the zone lie less than a day
  apart, the range \<open>week\<close> leaves out a session that ended eight days (of 24 hours) ago and
  keeps one that ended six days ago.
\<close>

theorem filteredSessions_keeps:
  "filteredSessions tz now filterRange selectedTags sess =
     filter (\<lambda>s. (\<exists>t. toNumber (if truthy (endAt s) then endAt s else startAt s) = Some t \<and>
                      rangeCutoff tz now filterRange \<le> t) \<and>
                 (selectedTags = [] \<or> set (tagsOrEmpty s) \<inter> set selectedTags \<noteq> {}))
       sess \<and>
   getDateCutoff tz now filterRange = rangeCutoff tz now filterRange \<and>
   (offsetsWithinADay tz \<and> endAt s = Num (now - 8 * MS_PER_DAY) \<and> now \<noteq> 8 * MS_PER_DAY \<longrightarrow>
      s \<notin> set (filteredSessions tz now ''week'' selectedTags sess)) \<and>
   (offsetsWithinADay tz \<and> s \<in> set sess \<and> endAt s = Num (now - 6 * MS_PER_DAY) \<and>
    now \<noteq> 6 * MS_PER_DAY \<and>
    (selectedTags = [] \<or> set (tagsOrEmpty s) \<inter> set selectedTags \<noteq> {}) \<longrightarrow>
      s \<in> set (filteredSessions tz now ''week'' selectedTags sess))"
proof -
  have eq: "filteredSessions tz now r selectedTags sess =
     filter (\<lambda>s. (\<exists>t. toNumber (if truthy (endAt s) then endAt s else startAt s) = Some t \<and>
                      rangeCutoff tz now r \<le> t) \<and>
                 (selectedTags = [] \<or> set (tagsOrEmpty s) \<inter> set selectedTags \<noteq> {}))
       sess" for r
    by (simp add: filteredSessions_filter getDateCutoff_rangeCutoff)
  have wk: "rangeCutoff tz now ''week'' = daysBefore tz now 7"
    by (simp add: rangeCutoff_def)
  have out: "s \<notin> set (filteredSessions tz now ''week'' selectedTags sess)"
    if "offsetsWithinADay tz \<and> endAt s = Num (now - 8 * MS_PER_DAY) \<and> now \<noteq> 8 * MS_PER_DAY"
  proof -
    have "now - 8 * MS_PER_DAY < daysBefore tz now 7"
      using daysBefore_bounds(1) [of tz now 7] that by simp
    with that show ?thesis
      by (simp add: eq wk)
  qed
  have inn: "s \<in> set (filteredSessions tz now ''week'' selectedTags sess)"
    if "offsetsWithinADay tz \<and> s \<in> set sess \<and> endAt s = Num (now - 6 * MS_PER_DAY) \<and>
        now \<noteq> 6 * MS_PER_DAY \<and>
        (selectedTags = [] \<or> set (tagsOrEmpty s) \<inter> set selectedTags \<noteq> {})"
  proof -
    have "daysBefore tz now 7 < now - 6 * MS_PER_DAY"
      using daysBefore_bounds(2) [of tz now 7] that by simp
    with that show ?thesis
      by (auto simp add: eq wk)
  qed
  from eq getDateCutoff_rangeCutoff [of tz now filterRange] out inn show ?thesis
    by blast
qed

text \<open>
  In New York on 12 March 2024 at 12:00 local time, two days after the clocks went
  forward, the cutoff of \<open>week\<close> is 5 March, 12:00 local time: seven days less one hour
  before. A session that ended eight days before is left out, one that ended six days
  before is kept.
\<close>

theorem filteredSessions_keeps_witness:
  "offsetsWithinADay newYork2024 \<and>
   getDateCutoff newYork2024 1710259200000 ''week'' = 1710259200000 - 7 * MS_PER_DAY + 3600000 \<and>
   endAt (historySession \<lparr> endAt := Num 1709568000000 \<rparr>)
     = Num (1710259200000 - 8 * MS_PER_DAY) \<and>
   historySession \<lparr> endAt := Num 1709568000000 \<rparr>
     \<notin> set (filteredSessions newYork2024 1710259200000 ''week'' []
               [mathSession, historySession \<lparr> endAt := Num 1709568000000 \<rparr>,
                mathSession \<lparr> endAt := Num 1709740800000 \<rparr>]) \<and>
   endAt (mathSession \<lparr> endAt := Num 1709740800000 \<rparr>) = Num (1710259200000 - 6 * MS_PER_DAY) \<and>
   mathSession \<lparr> endAt := Num 1709740800000 \<rparr>
     \<in> set (filteredSessions newYork2024 1710259200000 ''week'' [''math'']
               [mathSession, historySession \<lparr> endAt := Num 1709568000000 \<rparr>,
                mathSession \<lparr> endAt := Num 1709740800000 \<rparr>])"
proof -
  let ?eight = "historySession \<lparr> endAt := Num 1709568000000 \<rparr>"
  let ?six = "mathSession \<lparr> endAt := Num 1709740800000 \<rparr>"
  let ?all = "[mathSession, ?eight, ?six]"
  note z = offsetsWithinADay_newYork2024
  have h8: "endAt ?eight = Num (1710259200000 - 8 * MS_PER_DAY) \<and>
            (1710259200000::int) \<noteq> 8 * MS_PER_DAY"
    by (simp add: MS_PER_DAY_def)
  have h6: "?six \<in> set ?all \<and> endAt ?six = Num (1710259200000 - 6 * MS_PER_DAY) \<and>
            (1710259200000::int) \<noteq> 6 * MS_PER_DAY \<and>
            ([''math''] = [] \<or> set (tagsOrEmpty ?six) \<inter> set [''math''] \<noteq> {})"
    by (simp add: mathSession_def MS_PER_DAY_def tagsOrEmpty_def)
  have "rangeCutoff newYork2024 1710259200000 ''week''
          = 1710259200000 - 7 * MS_PER_DAY + 3600000"
    by (simp add: rangeCutoff_def daysBefore_def UTC_def LocalTime_def newYork2024_def
        MS_PER_DAY_def)
  with filteredSessions_keeps
         [where tz = newYork2024 and now = 1710259200000 and filterRange = "''week''"]
  have c: "getDateCutoff newYork2024 1710259200000 ''week''
             = 1710259200000 - 7 * MS_PER_DAY + 3600000"
    by simp
  from filteredSessions_keeps
         [where tz = newYork2024 and now = 1710259200000 and selectedTags = "[]"
            and sess = ?all and s = ?eight] z h8
  have "?eight \<notin> set (filteredSessions newYork2024 1710259200000 ''week'' [] ?all)"
    by blast
  moreover
  from filteredSessions_keeps
         [where tz = newYork2024 and now = 1710259200000 and selectedTags = "[''math'']"
            and sess = ?all and s = ?six] z h6
  have "?six \<in> set (filteredSessions newYork2024 1710259200000 ''week'' [''math''] ?all)"
    by blast
  ultimately show ?thesis
    using z c h8 h6 by blast
qed

text \<open>
  Other ranges at the same instant: two weeks before is 27 February, 12:00 local time, one
  month before is 12 February, 12:00, and three months before is 12 December 2023, 12:00
  (each 17:00 UTC, the offset being five hours then).
\<close>

lemma getDateCutoff_examples:
  "getDateCutoff newYork2024 1710259200000 ''2weeks'' = 1709053200000"
  "getDateCutoff newYork2024 1710259200000 ''month'' = 1707757200000"
  "getDateCutoff newYork2024 1710259200000 ''3months'' = 1702400400000"
  by code_simp+

text \<open>
  The tag example of the specification: with \<open>math\<close> selected, the session tagged
  \<open>math\<close> and \<open>review\<close> stays and the one tagged \<open>history\<close> goes.
\<close>

lemma tag_filter_example:
  "filteredSessions (fixedZone 7200000) 1715335200000 ''year'' [''math'']
     [mathSession, historySession] = [mathSession]"
  by code_simp

section \<open>Properties of the day loop\<close>

subsection \<open>Zones\<close>

lemma Day_bounds: "Day t * MS_PER_DAY \<le> t" "t < (Day t + 1) * MS_PER_DAY"
  using div_bounds [of MS_PER_DAY t]
  by (simp_all add: Day_def MS_PER_DAY_def algebra_simps)

lemma Day_mono: "a \<le> b \<Longrightarrow> Day a \<le> Day b"
  by (simp add: Day_def MS_PER_DAY_def zdiv_mono1)

lemma Day_unique: "q * MS_PER_DAY \<le> t \<Longrightarrow> t < (q + 1) * MS_PER_DAY \<Longrightarrow> Day t = q"
proof -
  assume a: "q * MS_PER_DAY \<le> t" "t < (q + 1) * MS_PER_DAY"
  have "Day t = q + Day (t - q * MS_PER_DAY)"
    using Day_shift [of q "t - q * MS_PER_DAY"] by simp
  moreover have "Day (t - q * MS_PER_DAY) = 0"
    using a by (simp add: Day_def MS_PER_DAY_def algebra_simps)
  ultimately show ?thesis by simp
qed

lemma Day_of_midnight: "Day (q * MS_PER_DAY) = q"
  by (simp add: Day_def MS_PER_DAY_def)

lemma setHours_24:
  "setHours tz c 24 0 0 0 = UTC tz ((Day (LocalTime tz c) + 1) * MS_PER_DAY)"
  by (simp add: setHours_def MakeDate_def MakeTime_def MS_PER_DAY_def algebra_simps)

lemma startsNextDay_nextDayLater: "startsNextDay tz \<Longrightarrow> nextDayLater tz"
  by (simp add: startsNextDay_def nextDayLater_def)

text \<open>
  In a zone of fixed offset, \<open>setHours(24, 0, 0, 0)\<close> gives the start of the next local
  calendar day.
\<close>

lemma startsNextDay_fixedZone: "startsNextDay (fixedZone offset)"
  unfolding startsNextDay_def
proof (intro allI conjI impI)
  fix c
  define q where "q = Day (c + offset)"
  have d: "setHours (fixedZone offset) c 24 0 0 0 = (q + 1) * MS_PER_DAY - offset"
    by (simp add: setHours_24 fixedZone_times q_def)
  have b: "q * MS_PER_DAY \<le> c + offset" "c + offset < (q + 1) * MS_PER_DAY"
    unfolding q_def by (rule Day_bounds)+
  show "c < setHours (fixedZone offset) c 24 0 0 0"
    using b by (simp add: d)
  show "Day (LocalTime (fixedZone offset) c)
          < Day (LocalTime (fixedZone offset) (setHours (fixedZone offset) c 24 0 0 0))"
    using Day_of_midnight [of "q + 1"] by (simp add: d fixedZone_times q_def)
  fix t assume "c \<le> t \<and> t < setHours (fixedZone offset) c 24 0 0 0"
  then have "q * MS_PER_DAY \<le> t + offset" "t + offset < (q + 1) * MS_PER_DAY"
    using b by (simp_all add: d)
  then have "Day (t + offset) = q"
    by (rule Day_unique)
  then show "Day (LocalTime (fixedZone offset) t) = Day (LocalTime (fixedZone offset) c)"
    by (simp add: fixedZone_times q_def)
qed

lemma nextDayLater_fixedZone: "nextDayLater (fixedZone offset)"
  using startsNextDay_fixedZone by (rule startsNextDay_nextDayLater)

text \<open>
  The same in New York during 2024, on the days on which the clocks change as on every
  other day: 10 March has 23 hours and 3 November has 25.
\<close>

lemma newYork2024_offsets:
  "utcOffset newYork2024 t =
     (if 1710054000000 \<le> t \<and> t < 1730613600000 then - 14400000 else - 18000000)"
  "localOffset newYork2024 l =
     (if l < 1710039600000 then - 18000000
      else if l < 1730599200000 then - 14400000 else - 18000000)"
  by (simp_all add: newYork2024_def)

lemma startsNextDay_newYork2024: "startsNextDay newYork2024"
  unfolding startsNextDay_def
proof (intro allI)
  fix c
  define q where "q = Day (LocalTime newYork2024 c)"
  define M where "M = (q + 1) * 86400000"
  define d where "d = setHours newYork2024 c 24 0 0 0"
  have d: "d = M - localOffset newYork2024 M"
    by (simp add: d_def setHours_24 UTC_def M_def q_def MS_PER_DAY_def)
  have b: "M - 86400000 \<le> c + utcOffset newYork2024 c" "c + utcOffset newYork2024 c < M"
    using Day_bounds [of "LocalTime newYork2024 c"]
    by (simp_all add: q_def M_def LocalTime_def MS_PER_DAY_def algebra_simps)
  have s: "M \<le> 1730678400000" if "1710054000000 \<le> c" "c < 1730613600000"
  proof -
    have "LocalTime newYork2024 c \<le> 1730599199999"
      using that by (simp add: LocalTime_def newYork2024_offsets)
    from Day_mono [OF this] have "q \<le> 20030"
      by (simp add: q_def [symmetric]) (simp add: Day_def MS_PER_DAY_def)
    then show ?thesis
      by (simp add: M_def)
  qed
  consider "q + 1 \<le> 19792" | "19793 \<le> q + 1" "q + 1 \<le> 20030" | "20031 \<le> q + 1"
    by linarith
  then have main: "c < d \<and> M \<le> d + utcOffset newYork2024 d \<and>
      (\<forall>t. c \<le> t \<and> t < d \<longrightarrow>
           M - 86400000 \<le> t + utcOffset newYork2024 t \<and> t + utcOffset newYork2024 t < M)"
  proof cases
    case 1
    then have m: "M \<le> 1710028800000"
      by (simp add: M_def)
    then have dd: "d = M + 18000000"
      by (simp add: d newYork2024_offsets)
    show ?thesis
      using b m unfolding dd newYork2024_offsets by (auto split: if_splits)
  next
    case 2
    then have m: "1710115200000 \<le> M" "M \<le> 1730592000000"
      by (simp_all add: M_def)
    then have dd: "d = M + 14400000"
      by (simp add: d newYork2024_offsets)
    show ?thesis
      using b m unfolding dd newYork2024_offsets by (auto split: if_splits)
  next
    case 3
    then have m: "1730678400000 \<le> M"
      by (simp add: M_def)
    then have dd: "d = M + 18000000"
      by (simp add: d newYork2024_offsets)
    show ?thesis
      using b m s unfolding dd newYork2024_offsets by (auto split: if_splits)
  qed
  have "Day (LocalTime newYork2024 t) = q" if "c \<le> t \<and> t < d" for t
  proof -
    from main that have "q * MS_PER_DAY \<le> LocalTime newYork2024 t"
      "LocalTime newYork2024 t < (q + 1) * MS_PER_DAY"
      by (simp_all add: M_def LocalTime_def MS_PER_DAY_def algebra_simps)
    then show ?thesis
      by (rule Day_unique)
  qed
  moreover have "q < Day (LocalTime newYork2024 d)"
  proof -
    from main have "(q + 1) * MS_PER_DAY \<le> LocalTime newYork2024 d"
      by (simp add: M_def LocalTime_def MS_PER_DAY_def)
    from Day_mono [OF this] show ?thesis
      by (simp add: Day_of_midnight)
  qed
  ultimately show "c < setHours newYork2024 c 24 0 0 0 \<and>
     (\<forall>t. c \<le> t \<and> t < setHours newYork2024 c 24 0 0 0 \<longrightarrow>
          Day (LocalTime newYork2024 t) = Day (LocalTime newYork2024 c)) \<and>
     Day (LocalTime newYork2024 c)
       < Day (LocalTime newYork2024 (setHours newYork2024 c 24 0 0 0))"
    using main unfolding d_def [symmetric] q_def [symmetric] by blast
qed

subsection \<open>Days spanned\<close>

lemma startsNextDayD:
  assumes "startsNextDay tz"
  shows "c < setHours tz c 24 0 0 0"
    and "c \<le> t \<Longrightarrow> t < setHours tz c 24 0 0 0 \<Longrightarrow>
           Day (LocalTime tz t) = Day (LocalTime tz c)"
    and "Day (LocalTime tz c) < Day (LocalTime tz (setHours tz c 24 0 0 0))"
  using assms unfolding startsNextDay_def by blast+

text \<open>Where \<open>setHours(24, 0, 0, 0)\<close> starts the next day, the local date never goes back.\<close>

lemma localDay_mono:
  assumes "startsNextDay tz"
  shows "c \<le> x \<Longrightarrow> Day (LocalTime tz c) \<le> Day (LocalTime tz x)"
proof (induction "nat (x - c)" arbitrary: c rule: less_induct)
  case less
  let ?d = "setHours tz c 24 0 0 0"
  show ?case
  proof (cases "x < ?d")
    case True
    with less.prems startsNextDayD(2) [OF assms, of c x] show ?thesis
      by simp
  next
    case False
    have "c < ?d"
      by (rule startsNextDayD(1) [OF assms])
    with False have "nat (x - ?d) < nat (x - c)" "?d \<le> x"
      by simp_all
    then have "Day (LocalTime tz ?d) \<le> Day (LocalTime tz x)"
      by (rule less.hyps)
    with startsNextDayD(3) [OF assms, of c] show ?thesis
      by simp
  qed
qed

lemma daysSpanned_pos: "s < e \<Longrightarrow> 1 \<le> daysSpanned tz s e"
proof -
  assume "s < e"
  then have "(\<lambda>t. Day (LocalTime tz t)) ` {s..<e} \<noteq> {}"
    by simp
  then have "0 < daysSpanned tz s e"
    unfolding daysSpanned_def by (simp add: card_gt_0_iff)
  then show ?thesis
    by simp
qed

lemma days_until_next:
  assumes "startsNextDay tz" "s < e" "e \<le> setHours tz s 24 0 0 0"
  shows "(\<lambda>t. Day (LocalTime tz t)) ` {s..<e} = {Day (LocalTime tz s)}"
proof (intro equalityI subsetI)
  fix y assume "y \<in> (\<lambda>t. Day (LocalTime tz t)) ` {s..<e}"
  then obtain t where t: "y = Day (LocalTime tz t)" "s \<le> t" "t < e"
    by auto
  from t(3) assms(3) have "t < setHours tz s 24 0 0 0"
    by simp
  from startsNextDayD(2) [OF assms(1) t(2) this] t(1) show "y \<in> {Day (LocalTime tz s)}"
    by simp
next
  fix y assume "y \<in> {Day (LocalTime tz s)}"
  then have "y = Day (LocalTime tz s)"
    by simp
  moreover have "s \<in> {s..<e}"
    using assms(2) by simp
  ultimately show "y \<in> (\<lambda>t. Day (LocalTime tz t)) ` {s..<e}"
    by (rule image_eqI)
qed

lemma daysSpanned_last:
  assumes "startsNextDay tz" "s < e" "e \<le> setHours tz s 24 0 0 0"
  shows "daysSpanned tz s e = 1"
  by (simp add: daysSpanned_def days_until_next [OF assms])

lemma daysSpanned_step:
  assumes "startsNextDay tz" "setHours tz s 24 0 0 0 < e"
  shows "daysSpanned tz s e = Suc (daysSpanned tz (setHours tz s 24 0 0 0) e)"
proof -
  define d where "d = setHours tz s 24 0 0 0"
  define f where "f = (\<lambda>t. Day (LocalTime tz t))"
  have sd: "s < d"
    unfolding d_def by (rule startsNextDayD(1) [OF assms(1)])
  have de: "d < e"
    using assms(2) by (simp only: d_def)
  have "{s..<d} \<union> {d..<e} = {s..<e}"
    using sd de by (intro ivl_disj_un_two(3)) simp_all
  then have "f ` {s..<e} = f ` {s..<d} \<union> f ` {d..<e}"
    by (simp only: image_Un [symmetric])
  moreover have "f ` {s..<d} = {f s}"
    unfolding f_def d_def using sd
    by (intro days_until_next [OF assms(1)]) (simp_all only: d_def order_refl)
  ultimately have im: "f ` {s..<e} = insert (f s) (f ` {d..<e})"
    by simp
  have notin: "f s \<notin> f ` {d..<e}"
  proof
    assume "f s \<in> f ` {d..<e}"
    then obtain x where x: "d \<le> x" "f x = f s"
      by auto
    from localDay_mono [OF assms(1) x(1)] have "f d \<le> f x"
      by (simp only: f_def)
    moreover have "f s < f d"
      unfolding f_def d_def by (rule startsNextDayD(3) [OF assms(1)])
    ultimately show False
      using x(2) by simp
  qed
  have fin: "finite (f ` {d..<e})"
    by (intro finite_imageI) simp
  have "card (f ` {s..<e}) = Suc (card (f ` {d..<e}))"
    unfolding im using fin notin by (rule card_insert_disjoint)
  then show ?thesis
    by (simp only: daysSpanned_def f_def d_def)
qed

subsection \<open>Rounding and buckets\<close>

lemma round_ms: "round (real_of_int x / 1000) = (x + 500) div 1000"
proof -
  have "real_of_int x / 1000 + 1 / 2 = real_of_int (x + 500) / real_of_int 1000"
    by (simp add: field_simps)
  then show ?thesis
    unfolding round_def by (simp only: floor_divide_of_int_eq)
qed

lemma round_ms_error:
  "- 500 < 1000 * round (real_of_int x / 1000) - x"
  "1000 * round (real_of_int x / 1000) - x \<le> 500"
  using div_bounds [of 1000 "x + 500"] by (simp_all add: round_ms)

lemma bucketTotal_bump: "bucketTotal (bump key v cnts) = bucketTotal cnts + v"
  by (induction cnts) (auto simp: bucketTotal_def)

subsection \<open>The passes of the loop\<close>

lemma dayLoop_unfold:
  "dayLoop tz eMs cursor cnts =
     (if cursor < eMs
      then dayLoop tz eMs (min eMs (setHours tz cursor 24 0 0 0))
             (bump (startOfDayISO tz cursor)
                (round (real_of_int (min eMs (setHours tz cursor 24 0 0 0) - cursor) / 1000))
                cnts)
      else Some cnts)"
  by (subst dayLoop.simps) (simp add: Let_def)

lemma dayLoop_at_end: "dayLoop tz eMs eMs cnts = Some cnts"
  by (subst dayLoop_unfold) simp

text \<open>
  The loop ends in every zone in which \<open>setHours(24, 0, 0, 0)\<close> gives a later instant:
  each pass then brings the cursor nearer to \<open>eMs\<close>.
\<close>

lemma dayLoop_returns:
  assumes "nextDayLater tz"
  shows "\<exists>r. dayLoop tz eMs cursor cnts = Some r"
proof (induction "nat (eMs - cursor)" arbitrary: cursor cnts rule: less_induct)
  case less
  show ?case
  proof (cases "cursor < eMs")
    case True
    let ?segEnd = "min eMs (setHours tz cursor 24 0 0 0)"
    have "cursor < setHours tz cursor 24 0 0 0"
      using assms by (simp add: nextDayLater_def)
    with True have "nat (eMs - ?segEnd) < nat (eMs - cursor)"
      by simp
    from less.hyps [OF this] True show ?thesis
      by (subst dayLoop_unfold) simp
  next
    case False
    then show ?thesis
      by (subst dayLoop_unfold) simp
  qed
qed

lemma cursorAfter_Suc:
  "cursorAfter tz eMs sMs (Suc k) =
     min eMs (setHours tz (cursorAfter tz eMs sMs k) 24 0 0 0)"
  by (simp add: cursorAfter_def)

lemma cursorAfter_0: "cursorAfter tz eMs sMs 0 = sMs"
  by (simp add: cursorAfter_def)

lemma cursorAfter_shift:
  "cursorAfter tz eMs sMs (Suc k) =
     cursorAfter tz eMs (min eMs (setHours tz sMs 24 0 0 0)) k"
  unfolding cursorAfter_def by (simp only: funpow_Suc_right o_apply)

lemma loopPass_shift:
  "loopPass tz eMs sMs c (Suc k) = loopPass tz eMs (min eMs (setHours tz sMs 24 0 0 0)) c k"
  unfolding loopPass_def by (simp only: cursorAfter_shift)

text \<open>
  After \<open>k\<close> passes the buckets hold, in thousandths of a second, the distance that the
  cursor has come, give or take half a second for each pass.
\<close>

lemma passes_total_bound:
  "\<bar>1000 * (bucketTotal (foldl (loopPass tz eMs sMs) cnts [0..<k]) - bucketTotal cnts)
      - (cursorAfter tz eMs sMs k - sMs)\<bar> \<le> 500 * int k"
proof (induction k)
  case 0
  show ?case
    by (simp add: cursorAfter_0)
next
  case (Suc k)
  define r where "r = foldl (loopPass tz eMs sMs) cnts [0..<k]"
  define a where "a = cursorAfter tz eMs sMs k"
  define b where "b = cursorAfter tz eMs sMs (Suc k)"
  define v where "v = round (real_of_int (b - a) / 1000)"
  have "foldl (loopPass tz eMs sMs) cnts [0..<Suc k] = loopPass tz eMs sMs r k"
    by (simp add: r_def)
  then have t: "bucketTotal (foldl (loopPass tz eMs sMs) cnts [0..<Suc k]) = bucketTotal r + v"
    by (simp add: loopPass_def bucketTotal_bump v_def a_def b_def)
  have err: "- 500 < 1000 * v - (b - a)" "1000 * v - (b - a) \<le> 500"
    unfolding v_def by (rule round_ms_error)+
  from Suc.IH have "\<bar>1000 * (bucketTotal r - bucketTotal cnts) - (a - sMs)\<bar> \<le> 500 * int k"
    by (simp only: r_def a_def)
  with err show ?case
    unfolding t b_def [symmetric] abs_le_iff by (simp add: algebra_simps)
qed

text \<open>
  Where \<open>setHours(24, 0, 0, 0)\<close> starts the next day, the loop makes one pass for each
  local calendar day that the interval meets.
\<close>

lemma dayLoop_unrolled:
  assumes "startsNextDay tz"
  shows "cursor < eMs \<Longrightarrow>
     dayLoop tz eMs cursor cnts =
       Some (foldl (loopPass tz eMs cursor) cnts [0..<daysSpanned tz cursor eMs])"
proof (induction "nat (eMs - cursor)" arbitrary: cursor cnts rule: less_induct)
  case less
  define d where "d = setHours tz cursor 24 0 0 0"
  define segEnd where "segEnd = min eMs d"
  define seconds where "seconds = round (real_of_int (segEnd - cursor) / 1000)"
  define cnts' where "cnts' = bump (startOfDayISO tz cursor) seconds cnts"
  have cd: "cursor < d"
    unfolding d_def by (rule startsNextDayD(1) [OF assms])
  have unf: "dayLoop tz eMs cursor cnts = dayLoop tz eMs segEnd cnts'"
    using less.prems by (subst dayLoop_unfold) (simp add: d_def segEnd_def seconds_def cnts'_def)
  have p0: "loopPass tz eMs cursor cnts 0 = cnts'"
    by (simp add: loopPass_def cursorAfter_def cnts'_def seconds_def segEnd_def d_def)
  have ps: "loopPass tz eMs cursor c (Suc k) = loopPass tz eMs segEnd c k" for c k
    unfolding segEnd_def d_def by (rule loopPass_shift)
  show ?case
  proof (cases "d < eMs")
    case True
    then have se: "segEnd = d" by (simp add: segEnd_def)
    define n1 where "n1 = daysSpanned tz segEnd eMs"
    have "nat (eMs - segEnd) < nat (eMs - cursor)" "segEnd < eMs"
      using True cd by (simp_all add: se)
    then have ih: "dayLoop tz eMs segEnd cnts' = Some (foldl (loopPass tz eMs segEnd) cnts' [0..<n1])"
      unfolding n1_def by (rule less.hyps)
    have n: "daysSpanned tz cursor eMs = Suc n1"
      unfolding n1_def se d_def using True by (intro daysSpanned_step [OF assms]) (simp add: d_def)
    have "[0..<Suc n1] = 0 # map Suc [0..<n1]"
      by (simp add: upt_conv_Cons map_Suc_upt del: upt_Suc)
    then have "foldl (loopPass tz eMs cursor) cnts [0..<Suc n1]
        = foldl (\<lambda>c k. loopPass tz eMs cursor c (Suc k)) cnts' [0..<n1]"
      by (simp add: p0 foldl_map del: upt_Suc)
    also have "\<dots> = foldl (loopPass tz eMs segEnd) cnts' [0..<n1]"
      by (simp only: ps)
    finally show ?thesis
      by (simp only: unf ih n)
  next
    case False
    then have se: "segEnd = eMs" by (simp add: segEnd_def)
    have "daysSpanned tz cursor eMs = 1"
      using less.prems False by (intro daysSpanned_last [OF assms]) (simp_all add: d_def)
    then show ?thesis
      unfolding unf se by (simp add: p0 dayLoop_at_end)
  qed
qed

lemma cursorAfter_below_end:
  assumes "startsNextDay tz"
  shows "cursor < eMs \<Longrightarrow> k < daysSpanned tz cursor eMs \<Longrightarrow> cursorAfter tz eMs cursor k < eMs"
proof (induction k arbitrary: cursor)
  case 0
  then show ?case
    by (simp add: cursorAfter_0)
next
  case (Suc k)
  let ?d = "setHours tz cursor 24 0 0 0"
  show ?case
  proof (cases "?d < eMs")
    case True
    from Suc.prems(2) have "k < daysSpanned tz ?d eMs"
      by (simp add: daysSpanned_step [OF assms True])
    from Suc.IH [OF True this] True show ?thesis
      by (simp add: cursorAfter_shift)
  next
    case False
    then have "daysSpanned tz cursor eMs = 1"
      using Suc.prems(1) by (intro daysSpanned_last [OF assms]) simp_all
    with Suc.prems(2) show ?thesis
      by simp
  qed
qed

lemma cursorAfter_at_end:
  assumes "startsNextDay tz"
  shows "cursor < eMs \<Longrightarrow> cursorAfter tz eMs cursor (daysSpanned tz cursor eMs) = eMs"
proof (induction "nat (eMs - cursor)" arbitrary: cursor rule: less_induct)
  case less
  let ?d = "setHours tz cursor 24 0 0 0"
  have cd: "cursor < ?d"
    by (rule startsNextDayD(1) [OF assms])
  show ?case
  proof (cases "?d < eMs")
    case True
    then have "nat (eMs - ?d) < nat (eMs - cursor)"
      using cd by simp
    from less.hyps [OF this True] True show ?thesis
      by (simp add: daysSpanned_step [OF assms True] cursorAfter_shift)
  next
    case False
    then have "daysSpanned tz cursor eMs = 1"
      using less.prems by (intro daysSpanned_last [OF assms]) simp_all
    with False show ?thesis
      by (simp add: cursorAfter_def)
  qed
qed

lemma dayLoop_total_bound:
  assumes "startsNextDay tz" "sMs < eMs"
  shows "\<exists>r. dayLoop tz eMs sMs cnts = Some r \<and>
           \<bar>1000 * (bucketTotal r - bucketTotal cnts) - (eMs - sMs)\<bar>
             \<le> 500 * int (daysSpanned tz sMs eMs)"
  using passes_total_bound [of tz eMs sMs cnts "daysSpanned tz sMs eMs"]
  by (simp add: dayLoop_unrolled [OF assms] cursorAfter_at_end [OF assms])

text \<open>
  A session that lies within one local calendar day goes into one bucket, with its whole
  duration in seconds.
\<close>

lemma dayLoop_single_day:
  assumes "sMs < eMs" "eMs \<le> setHours tz sMs 24 0 0 0"
  shows "dayLoop tz eMs sMs cnts =
           Some (bump (startOfDayISO tz sMs) (round (real_of_int (eMs - sMs) / 1000)) cnts)"
proof -
  have m: "min eMs (setHours tz sMs 24 0 0 0) = eMs"
    using assms(2) by simp
  show ?thesis
    using assms(1) by (subst dayLoop_unfold) (simp add: m dayLoop_at_end)
qed

text \<open>
  The same bound for the body of \<open>forEach\<close>, on a session whose start and end are numbers
  other than 0 with the end after the start.
\<close>

lemma addSession_conserves_duration:
  assumes "startsNextDay tz"
    and "startAt sess = Num s" "endAt sess = Num e" "s \<noteq> 0" "e \<noteq> 0" "s < e"
  shows "addSession tz cnts sess = dayLoop tz e s cnts"
    and "\<exists>r. addSession tz cnts sess = Some r \<and>
           \<bar>1000 * (bucketTotal r - bucketTotal cnts) - (e - s)\<bar>
             \<le> 500 * int (daysSpanned tz s e)"
proof -
  show eq: "addSession tz cnts sess = dayLoop tz e s cnts"
    using assms(2-6) by (simp add: addSession_def js_or_def newDateGetTime_def)
  show "\<exists>r. addSession tz cnts sess = Some r \<and>
           \<bar>1000 * (bucketTotal r - bucketTotal cnts) - (e - s)\<bar>
             \<le> 500 * int (daysSpanned tz s e)"
    unfolding eq using assms(1,6) by (rule dayLoop_total_bound)
qed

text \<open>
  The session of the examples below: in New York from 9 March 2024, 22:00, to 11 March,
  01:00. The clocks go forward in between, on 10 March at 02:00, so the session lasts 26
  hours and meets three local calendar days, of which the second has 23 hours.
\<close>

lemma newYork2024_midnights:
  "setHours newYork2024 1710039600000 24 0 0 0 = 1710046800000"
  "setHours newYork2024 1710046800000 24 0 0 0 = 1710129600000"
  "setHours newYork2024 1710129600000 24 0 0 0 = 1710216000000"
  by code_simp+

lemma newYork2024_three_days: "daysSpanned newYork2024 1710039600000 1710133200000 = 3"
proof -
  note z = startsNextDay_newYork2024
  have "daysSpanned newYork2024 1710129600000 1710133200000 = 1"
    by (intro daysSpanned_last [OF z]) (simp_all add: newYork2024_midnights)
  moreover have "daysSpanned newYork2024 1710046800000 1710133200000
      = Suc (daysSpanned newYork2024 1710129600000 1710133200000)"
    using daysSpanned_step [OF z, of 1710046800000 1710133200000]
    by (simp add: newYork2024_midnights)
  moreover have "daysSpanned newYork2024 1710039600000 1710133200000
      = Suc (daysSpanned newYork2024 1710046800000 1710133200000)"
    using daysSpanned_step [OF z, of 1710039600000 1710133200000]
    by (simp add: newYork2024_midnights)
  ultimately show ?thesis
    by simp
qed

lemma newYork2024_loop:
  "dayLoop newYork2024 1710133200000 1710039600000 []
     = Some [(''2024-03-09'', 7200), (''2024-03-10'', 82800), (''2024-03-11'', 3600)]"
  by code_simp

text \<open>
  The other change of the year: from 2 November 2024, 22:00, to 4 November, 01:00, the
  second day has 25 hours.
\<close>

lemma newYork2024_autumn_loop:
  "dayLoop newYork2024 1730700000000 1730599200000 []
     = Some [(''2024-11-02'', 7200), (''2024-11-03'', 90000), (''2024-11-04'', 3600)]"
  by code_simp

text \<open>
  Claim C3. In a zone in which \<open>setHours(24, 0, 0, 0)\<close> starts the next local calendar
  day, whether or not its offset changes, and for a session from \<open>sMs\<close> to a later
  \<open>eMs\<close>: the day loop returns, and the seconds that it adds to the buckets, all buckets
  together, differ from \<open>round((eMs - sMs) / 1000)\<close> by at most the number of local
  calendar days that the interval meets.
\<close>

theorem dayLoop_conserves_duration:
  assumes "startsNextDay tz" "sMs < eMs"
  shows "\<exists>r. dayLoop tz eMs sMs cnts = Some r \<and>
           \<bar>(bucketTotal r - bucketTotal cnts) - round (real_of_int (eMs - sMs) / 1000)\<bar>
             \<le> int (daysSpanned tz sMs eMs)"
proof -
  from dayLoop_total_bound [OF assms, of cnts] obtain r
    where r: "dayLoop tz eMs sMs cnts = Some r"
      and b: "\<bar>1000 * (bucketTotal r - bucketTotal cnts) - (eMs - sMs)\<bar>
                \<le> 500 * int (daysSpanned tz sMs eMs)"
    by blast
  note e = round_ms_error [of "eMs - sMs"]
  have p: "1 \<le> int (daysSpanned tz sMs eMs)"
    using daysSpanned_pos [OF assms(2), of tz] by simp
  from b e p have "\<bar>(bucketTotal r - bucketTotal cnts) - round (real_of_int (eMs - sMs) / 1000)\<bar>
             \<le> int (daysSpanned tz sMs eMs)"
    unfolding abs_le_iff by (simp add: algebra_simps)
  with r show ?thesis
    by blast
qed

theorem dayLoop_conserves_duration_witness:
  "startsNextDay newYork2024 \<and> (1710039600000::int) < 1710133200000 \<and>
   dayLoop newYork2024 1710133200000 1710039600000 []
     = Some [(''2024-03-09'', 7200), (''2024-03-10'', 82800), (''2024-03-11'', 3600)] \<and>
   round (real_of_int (1710133200000 - 1710039600000) / 1000) = 93600 \<and>
   daysSpanned newYork2024 1710039600000 1710133200000 = 3 \<and>
   \<bar>(bucketTotal [(''2024-03-09'', 7200), (''2024-03-10'', 82800), (''2024-03-11'', 3600)]
        - bucketTotal [])
      - round (real_of_int (1710133200000 - 1710039600000) / 1000)\<bar>
     \<le> int (daysSpanned newYork2024 1710039600000 1710133200000)"
proof -
  note z = startsNextDay_newYork2024
  have h: "(1710039600000::int) < 1710133200000"
    by simp
  note e1 = newYork2024_loop
  note e2 = newYork2024_three_days
  have e3: "round (real_of_int (1710133200000 - 1710039600000) / 1000) = 93600"
    by (simp only: round_ms)
  from dayLoop_conserves_duration [OF z h, of "[]"]
  have "\<bar>(bucketTotal [(''2024-03-09'', 7200), (''2024-03-10'', 82800), (''2024-03-11'', 3600)]
        - bucketTotal [])
      - round (real_of_int (1710133200000 - 1710039600000) / 1000)\<bar>
     \<le> int (daysSpanned newYork2024 1710039600000 1710133200000)"
    unfolding e1 by simp
  with z h e1 e2 e3 show ?thesis
    by blast
qed

text \<open>
  Claim C10. In a zone in which \<open>setHours(24, 0, 0, 0)\<close> gives a later instant, the day
  loop terminates, from every cursor. Where that instant is moreover the start of the next
  local calendar day, and for a session from \<open>sMs\<close> to a later \<open>eMs\<close>, the loop ends
  after one pass per local calendar day that the interval meets: before that many passes
  the cursor is below \<open>eMs\<close> and each pass moves it strictly forward, after them it equals
  \<open>eMs\<close>, and the result of the loop is the result of these passes.
\<close>

theorem dayLoop_reaches_end:
  "(nextDayLater tz \<longrightarrow> (\<exists>r. dayLoop tz eMs sMs cnts = Some r)) \<and>
   (startsNextDay tz \<and> sMs < eMs \<longrightarrow>
      1 \<le> daysSpanned tz sMs eMs \<and>
      cursorAfter tz eMs sMs (daysSpanned tz sMs eMs) = eMs \<and>
      (\<forall>k < daysSpanned tz sMs eMs.
         cursorAfter tz eMs sMs k < eMs \<and>
         cursorAfter tz eMs sMs k < cursorAfter tz eMs sMs (Suc k)) \<and>
      dayLoop tz eMs sMs cnts =
        Some (foldl (loopPass tz eMs sMs) cnts [0..<daysSpanned tz sMs eMs]))"
proof (intro conjI impI allI)
  assume "nextDayLater tz"
  then show "\<exists>r. dayLoop tz eMs sMs cnts = Some r"
    by (rule dayLoop_returns)
next
  assume a: "startsNextDay tz \<and> sMs < eMs"
  then have z: "startsNextDay tz" and h: "sMs < eMs"
    by simp_all
  show "1 \<le> daysSpanned tz sMs eMs"
    using h by (rule daysSpanned_pos)
  show "cursorAfter tz eMs sMs (daysSpanned tz sMs eMs) = eMs"
    using z h by (rule cursorAfter_at_end)
  show "dayLoop tz eMs sMs cnts =
        Some (foldl (loopPass tz eMs sMs) cnts [0..<daysSpanned tz sMs eMs])"
    using z h by (rule dayLoop_unrolled)
  fix k assume k: "k < daysSpanned tz sMs eMs"
  show lt: "cursorAfter tz eMs sMs k < eMs"
    using z h k by (rule cursorAfter_below_end)
  show "cursorAfter tz eMs sMs k < cursorAfter tz eMs sMs (Suc k)"
    using lt startsNextDayD(1) [OF z, of "cursorAfter tz eMs sMs k"]
    unfolding cursorAfter_Suc by simp
qed

theorem dayLoop_reaches_end_witness:
  "nextDayLater newYork2024 \<and> startsNextDay newYork2024 \<and>
   (1710039600000::int) < 1710133200000 \<and>
   daysSpanned newYork2024 1710039600000 1710133200000 = 3 \<and>
   cursorAfter newYork2024 1710133200000 1710039600000 1 = 1710046800000 \<and>
   cursorAfter newYork2024 1710133200000 1710039600000 2 = 1710129600000 \<and>
   cursorAfter newYork2024 1710133200000 1710039600000
     (daysSpanned newYork2024 1710039600000 1710133200000) = 1710133200000 \<and>
   dayLoop newYork2024 1710133200000 1710039600000 [] =
     Some (foldl (loopPass newYork2024 1710133200000 1710039600000) []
             [0..<daysSpanned newYork2024 1710039600000 1710133200000]) \<and>
   dayLoop newYork2024 1710133200000 1710039600000 []
     = Some [(''2024-03-09'', 7200), (''2024-03-10'', 82800), (''2024-03-11'', 3600)]"
proof -
  note z = startsNextDay_newYork2024
  note n = startsNextDay_nextDayLater [OF z]
  have h: "(1710039600000::int) < 1710133200000"
    by simp
  note e0 = newYork2024_three_days
  have e1: "cursorAfter newYork2024 1710133200000 1710039600000 1 = 1710046800000"
    by code_simp
  have e2: "cursorAfter newYork2024 1710133200000 1710039600000 2 = 1710129600000"
    by code_simp
  note e3 = newYork2024_loop
  from dayLoop_reaches_end
         [where tz = newYork2024 and eMs = 1710133200000 and sMs = 1710039600000
            and cnts = "[]"]
       z n h e0 e1 e2 e3
  show ?thesis
    by blast
qed

section \<open>Properties of the statistics\<close>

lemma smod_nonneg: "0 \<le> s \<Longrightarrow> 0 < b \<Longrightarrow> s smod b = s mod (b::int)"
  by (cases "s = 0") (simp_all add: smod_int_alt_def)

lemma floor_div_int: "\<lfloor>real_of_int a / real_of_int b\<rfloor> = a div b"
  by (rule floor_divide_of_int_eq)

lemma secondsToHMS_of_int:
  "secondsToHMS (real_of_int s) =
     \<lparr> hh = s div 3600, mm = (s smod 3600) div 60, ss = s smod 60 \<rparr>"
  by (simp add: secondsToHMS_def SEC_PER_HOUR_def MIN_PER_HOUR_def Let_def floor_div_int
      del: of_int_numeral)  

lemma hmsSeconds_secondsToHMS:
  assumes "0 \<le> s"
  shows "hmsSeconds (secondsToHMS (real_of_int s)) = s"
proof -
  have "s mod 3600 mod 60 = s mod 60"
    by (simp add: mod_mod_cancel)
  then have "s mod 3600 div 60 * 60 + s mod 60 = s mod 3600"
    using div_mult_mod_eq [of "s mod 3600" 60] by simp
  moreover have "s div 3600 * 3600 + s mod 3600 = s"
    by simp
  moreover have "hmsSeconds (secondsToHMS (real_of_int s))
      = s div 3600 * 3600 + s mod 3600 div 60 * 60 + s mod 60"
    using assms by (simp add: secondsToHMS_of_int hmsSeconds_def smod_nonneg)
  ultimately show ?thesis
    by linarith
qed

lemma secondsToHMS_floor: "secondsToHMS x = secondsToHMS (real_of_int \<lfloor>x\<rfloor>)"
  by (simp add: secondsToHMS_def)

lemma foldl_durations:
  "foldl (\<lambda>sum s. sum + durationOr0 s) a fs = a + sum_list (map durationOr0 fs)"
  by (induction fs arbitrary: a) simp_all

lemma keys_bump:
  "map fst (bump key v cnts) =
     (if key \<in> set (map fst cnts) then map fst cnts else map fst cnts @ [key])"
proof (induction cnts)
  case Nil
  show ?case by simp
next
  case (Cons a cnts)
  obtain k c where a: "a = (k, c)"
    by (cases a)
  show ?case
  proof (cases "k = key")
    case True
    then show ?thesis by (simp add: a)
  next
    case False
    with Cons show ?thesis by (simp add: a)
  qed
qed

lemma distinct_bump: "distinct (map fst cnts) \<Longrightarrow> distinct (map fst (bump key v cnts))"
  by (simp add: keys_bump)

text \<open>
  Whatever the zone, a loop that returns leaves the keys distinct: the number of keys is
  the number of distinct days.
\<close>

lemma distinct_dayLoop:
  assumes "dayLoop tz eMs cursor cnts = Some r"
  shows "distinct (map fst cnts) \<longrightarrow> distinct (map fst r)"
proof (rule dayLoop.raw_induct
         [where P = "\<lambda>tz eMs cursor cnts r. distinct (map fst cnts) \<longrightarrow> distinct (map fst r)",
          OF _ assms])
  fix loop :: "zone \<Rightarrow> int \<Rightarrow> int \<Rightarrow> counts \<Rightarrow> counts option"
  fix tz eMs cursor cnts r
  assume IH: "\<And>tz eMs cursor cnts r.
      loop tz eMs cursor cnts = Some r \<Longrightarrow> distinct (map fst cnts) \<longrightarrow> distinct (map fst r)"
    and body: "(if cursor < eMs then
        (let d = setHours tz cursor 24 0 0 0;
             segEnd = min eMs d;
             seconds = round (real_of_int (segEnd - cursor) / 1000);
             key = startOfDayISO tz cursor
         in loop tz eMs segEnd (bump key seconds cnts))
      else Some cnts) = Some r"
  show "distinct (map fst cnts) \<longrightarrow> distinct (map fst r)"
  proof (cases "cursor < eMs")
    case True
    with body have "loop tz eMs (min eMs (setHours tz cursor 24 0 0 0))
        (bump (startOfDayISO tz cursor)
           (round (real_of_int (min eMs (setHours tz cursor 24 0 0 0) - cursor) / 1000)) cnts)
        = Some r"
      by (simp add: Let_def)
    from IH [OF this] show ?thesis
      by (simp add: distinct_bump)
  next
    case False
    with body show ?thesis
      by simp
  qed
qed

lemma distinct_addSession:
  assumes "addSession tz cnts sess = Some r" "distinct (map fst cnts)"
  shows "distinct (map fst r)"
proof -
  from assms(1) have "r = cnts \<or> (\<exists>e s. dayLoop tz e s cnts = Some r)"
    by (auto simp: addSession_def Let_def split: jsnum.splits if_splits)
  with assms(2) distinct_dayLoop show ?thesis
    by blast
qed

lemma distinct_forEachSession:
  "forEachSession tz cnts fs = Some r \<Longrightarrow> distinct (map fst cnts) \<Longrightarrow> distinct (map fst r)"
proof (induction fs arbitrary: cnts)
  case Nil
  then show ?case by simp
next
  case (Cons sess fs)
  from Cons.prems(1) obtain c where c: "addSession tz cnts sess = Some c"
    and r: "forEachSession tz c fs = Some r"
    by (auto split: option.splits)
  from distinct_addSession [OF c Cons.prems(2)] have "distinct (map fst c)" .
  with r show ?case
    by (rule Cons.IH)
qed

lemma distinct_countsByDay: "countsByDay tz fs = Some cnts \<Longrightarrow> distinct (map fst cnts)"
  using distinct_forEachSession [of tz "[]" fs cnts] by (simp add: countsByDay_def)

lemma length_countsByDay:
  "countsByDay tz fs = Some cnts \<Longrightarrow> length cnts = card (fst ` set cnts)"
  using distinct_card [OF distinct_countsByDay [of tz fs cnts]] by simp

text \<open>
  \<open>countsByDay\<close> returns in every zone in which \<open>setHours(24, 0, 0, 0)\<close> gives a later
  instant, so in every zone of fixed offset.
\<close>

lemma addSession_returns:
  assumes "nextDayLater tz"
  shows "\<exists>r. addSession tz cnts sess = Some r"
  using dayLoop_returns [OF assms]
  by (simp add: addSession_def Let_def split: jsnum.splits)

lemma forEachSession_returns:
  assumes "nextDayLater tz"
  shows "\<exists>r. forEachSession tz cnts fs = Some r"
proof (induction fs arbitrary: cnts)
  case Nil
  show ?case by simp
next
  case (Cons sess fs)
  from addSession_returns [OF assms, of cnts sess] obtain c
    where "addSession tz cnts sess = Some c"
    by blast
  with Cons.IH [of c] show ?case
    by simp
qed

lemma countsByDay_returns: "nextDayLater tz \<Longrightarrow> \<exists>cnts. countsByDay tz fs = Some cnts"
  unfolding countsByDay_def by (rule forEachSession_returns)

lemma floor_div_div:
  "\<lfloor>real_of_int T / 1000 / real n\<rfloor> = T div 1000 div int n"
proof -
  have "real_of_int T / 1000 / real n = real_of_int T / real_of_int (1000 * int n)"
    by simp
  then have "\<lfloor>real_of_int T / 1000 / real n\<rfloor> = T div (1000 * int n)"
    by (simp only: floor_divide_of_int_eq)
  then show ?thesis
    by (simp add: zdiv_zmult2_eq)
qed

lemma floor_div_1000: "\<lfloor>real_of_int T / 1000\<rfloor> = T div 1000"
  using floor_divide_of_int_eq [of T 1000] by simp

text \<open>
  Claim C8, as amended. The total is the sum of the filtered sessions' \<open>durationMs\<close>
  (a missing one counting as 0) divided by 1000 and rounded down; it is not taken from
  the buckets. The days studied are the number of distinct day keys in the bucket map,
  whatever seconds they hold, and 1 when there is none. The average per study day is the
  total divided by the days studied, rounded down. This holds of the bucket map that
  \<open>countsByDay\<close> returns, in every zone, and \<open>countsByDay\<close> returns one in every zone in
  which \<open>setHours(24, 0, 0, 0)\<close> gives a later instant.
\<close>

theorem stats_computes:
  fixes tz :: zone and fs :: "session list"
  defines "T \<equiv> sum_list (map durationOr0 fs)"
  shows "(nextDayLater tz \<longrightarrow> (\<exists>c. countsByDay tz fs = Some c)) \<and>
         (countsByDay tz fs = Some cnts \<longrightarrow>
            daysStudied (stats fs cnts) = max 1 (card (fst ` set cnts)) \<and>
            total (stats fs cnts) = secondsToHMS (real_of_int (T div 1000)) \<and>
            avg (stats fs cnts)
              = secondsToHMS (real_of_int (T div 1000 div int (daysStudied (stats fs cnts)))) \<and>
            (0 \<le> T \<longrightarrow>
               hmsSeconds (total (stats fs cnts)) = T div 1000 \<and>
               hmsSeconds (avg (stats fs cnts))
                 = T div 1000 div int (daysStudied (stats fs cnts))))"
proof (intro conjI impI)
  assume "nextDayLater tz"
  then show "\<exists>c. countsByDay tz fs = Some c"
    by (rule countsByDay_returns)
next
  assume c: "countsByDay tz fs = Some cnts"
  define n where "n = (if length cnts = 0 then 1 else length cnts)"
  have len: "length cnts = card (fst ` set cnts)"
    using c by (rule length_countsByDay)
  have n: "n = max 1 (card (fst ` set cnts))"
    unfolding len [symmetric] n_def by (cases "length cnts") simp_all
  have tt: "foldl (\<lambda>sum s. sum + durationOr0 s) 0 fs = T"
    by (simp add: foldl_durations T_def)
  have st: "stats fs cnts =
      \<lparr> total = secondsToHMS (real_of_int T / 1000),
        avg = secondsToHMS (real_of_int \<lfloor>real_of_int T / 1000 / real n\<rfloor>),
        daysStudied = n \<rparr>"
    unfolding stats_def tt n_def Let_def by (rule refl)
  have d: "daysStudied (stats fs cnts) = n"
    by (simp add: st)
  have t: "total (stats fs cnts) = secondsToHMS (real_of_int (T div 1000))"
    using secondsToHMS_floor [of "real_of_int T / 1000"] by (simp add: st floor_div_1000)
  have "avg (stats fs cnts) = secondsToHMS (real_of_int \<lfloor>real_of_int T / 1000 / real n\<rfloor>)"
    unfolding st by (rule stats_result.select_convs)
  then have a: "avg (stats fs cnts) = secondsToHMS (real_of_int (T div 1000 div int n))"
    by (simp only: floor_div_div)
  have nn: "0 \<le> T div 1000 \<and> 0 \<le> T div 1000 div int n" if "0 \<le> T"
    using that by (simp add: pos_imp_zdiv_nonneg_iff n_def)
  show "daysStudied (stats fs cnts) = max 1 (card (fst ` set cnts))"
    using n by (simp only: d)
  show "total (stats fs cnts) = secondsToHMS (real_of_int (T div 1000))"
    by (rule t)
  show "avg (stats fs cnts)
          = secondsToHMS (real_of_int (T div 1000 div int (daysStudied (stats fs cnts))))"
    using a by (simp only: d)
  assume pos: "0 \<le> T"
  from nn [OF pos] show "hmsSeconds (total (stats fs cnts)) = T div 1000"
    by (simp add: t hmsSeconds_secondsToHMS)
  from nn [OF pos]
  show "hmsSeconds (avg (stats fs cnts)) = T div 1000 div int (daysStudied (stats fs cnts))"
    unfolding d by (simp add: a hmsSeconds_secondsToHMS)
qed

theorem stats_computes_witness:
  "nextDayLater (fixedZone 7200000) \<and>
   0 \<le> sum_list (map durationOr0 [mathSession, historySession]) \<and>
   countsByDay (fixedZone 7200000) [mathSession, historySession]
     = Some [(''2024-05-09'', 3600), (''2024-05-01'', 3600)] \<and>
   daysStudied (stats [mathSession, historySession]
                  [(''2024-05-09'', 3600), (''2024-05-01'', 3600)]) = 2 \<and>
   hmsSeconds (total (stats [mathSession, historySession]
                        [(''2024-05-09'', 3600), (''2024-05-01'', 3600)])) = 7200 \<and>
   hmsSeconds (avg (stats [mathSession, historySession]
                      [(''2024-05-09'', 3600), (''2024-05-01'', 3600)])) = 3600"
proof -
  let ?fs = "[mathSession, historySession]"
  let ?c = "[(''2024-05-09'', 3600::int), (''2024-05-01'', 3600)]"
  note z = nextDayLater_fixedZone [of 7200000]
  have T: "sum_list (map durationOr0 ?fs) = 7200000"
    by (simp add: durationOr0_def js_or_def mathSession_def historySession_def)
  have c: "countsByDay (fixedZone 7200000) ?fs = Some ?c"
    by code_simp
  have k: "max 1 (card (fst ` set ?c)) = 2"
    by simp
  note th = stats_computes [where tz = "fixedZone 7200000" and fs = ?fs and cnts = ?c]
  have nonneg: "0 \<le> sum_list (map durationOr0 ?fs)"
    by (simp only: T)
  from th c have "daysStudied (stats ?fs ?c) = max 1 (card (fst ` set ?c))"
    by blast
  then have d: "daysStudied (stats ?fs ?c) = 2"
    by (simp only: k)
  from th c nonneg have "hmsSeconds (total (stats ?fs ?c))
      = sum_list (map durationOr0 ?fs) div 1000"
    and "hmsSeconds (avg (stats ?fs ?c))
      = sum_list (map durationOr0 ?fs) div 1000 div int (daysStudied (stats ?fs ?c))"
    by blast+
  then have "hmsSeconds (total (stats ?fs ?c)) = 7200"
    and "hmsSeconds (avg (stats ?fs ?c)) = 3600"
    unfolding T d by simp_all
  with z nonneg c d show ?thesis
    by blast
qed

text \<open>
  The claim as written fails. A single session of 1600 ms puts \<open>round(1.6) = 2\<close> seconds
  into its bucket, while the total is \<open>floor(1600 / 1000) = 1\<close> second.
\<close>

theorem stats_total_differs_from_buckets:
  "countsByDay (fixedZone 0)
     [\<lparr> id' = StrId ''a1'', startAt = Num 1715335200000, endAt = Num 1715335201600,
        durationMs = Num 1600, date = NoDate, topic = Some ''math'', notes' = Some '''',
        tags = Some [] \<rparr>] = Some [(''2024-05-10'', 2)] \<and>
   hmsSeconds (total (stats
     [\<lparr> id' = StrId ''a1'', startAt = Num 1715335200000, endAt = Num 1715335201600,
        durationMs = Num 1600, date = NoDate, topic = Some ''math'', notes' = Some '''',
        tags = Some [] \<rparr>]
     [(''2024-05-10'', 2)])) = 1 \<and>
   hmsSeconds (total (stats
     [\<lparr> id' = StrId ''a1'', startAt = Num 1715335200000, endAt = Num 1715335201600,
        durationMs = Num 1600, date = NoDate, topic = Some ''math'', notes' = Some '''',
        tags = Some [] \<rparr>]
     [(''2024-05-10'', 2)]))
     \<noteq> bucketTotal [(''2024-05-10'', 2)]"
  by code_simp

text \<open>
  A bucket that holds 0 seconds counts as a day studied: a session of 400 ms on a second
  day makes two days studied, with one bucket that is not zero.
\<close>

lemma stats_counts_zero_buckets:
  "countsByDay (fixedZone 0)
     [mathSession,
      \<lparr> id' = StrId ''c3'', startAt = Num 1715421600000, endAt = Num 1715421600400,
        durationMs = Num 400, date = NoDate, topic = Some ''math'', notes' = Some '''',
        tags = Some [] \<rparr>] = Some [(''2024-05-10'', 3600), (''2024-05-11'', 0)] \<and>
   daysStudied (stats
     [mathSession,
      \<lparr> id' = StrId ''c3'', startAt = Num 1715421600000, endAt = Num 1715421600400,
        durationMs = Num 400, date = NoDate, topic = Some ''math'', notes' = Some '''',
        tags = Some [] \<rparr>]
     [(''2024-05-10'', 3600), (''2024-05-11'', 0)]) = 2"
  by code_simp

end
